theory Spec2Isabelle
  imports Complex_Main "HOL-Library.AList" "HOL-Library.Sublist" "HOL-Library.Multiset"
begin

section \<open>The preference scorer of \<^verbatim>\<open>src/ml/scorer.py\<close>\<close>

text \<open>
  \<^verbatim>\<open>HouseScorer.score_listings\<close> turns a list of listing dicts into a pandas DataFrame,
  drops the rows that miss a hard constraint, computes up to five component scores,
  adds them up with the user's weights, rounds, ranks and sorts.

  Numbers are exact rationals here: the Python computes in IEEE doubles, and the model
  keeps the arithmetic and leaves the rounding error of the doubles out. The one special
  double the code does produce, NaN, is modelled: a numeric series is a list of
  \<open>rat option\<close> and \<open>None\<close> is NaN. Infinities are not modelled (the default
  \<^verbatim>\<open>float('inf')\<close> of \<^verbatim>\<open>max_price\<close> is the absent bound).

  The pandas and numpy operations the scorer calls (the DataFrame constructor, column
  access and assignment, boolean selection, \<^verbatim>\<open>std\<close>, \<^verbatim>\<open>min\<close>, \<^verbatim>\<open>max\<close>,
  \<^verbatim>\<open>fillna\<close>, \<^verbatim>\<open>round\<close>, \<^verbatim>\<open>rank\<close>, \<^verbatim>\<open>sort_values\<close>, \<^verbatim>\<open>to_dict\<close>) are
  library code; each is modelled by what it does on the values the scorer passes. Of the
  column types of pandas the model keeps the one effect the output shows: the
  constructor turns a \<^verbatim>\<open>None\<close> into NaN in a column it reads as doubles. Apart from
  that a column is a list of cells, and a cell that is \<^verbatim>\<open>None\<close> or NaN reads as NaN
  in arithmetic.

  The scorer is given twice: as a function from the listings to the result
  (\<open>score_listings\<close>), and as a call on a store of objects with the listings passed by
  reference (\<open>score_listings_store\<close>), which shows what the call writes to. The two
  return the same (\<open>score_listings_store_eq\<close>).
\<close>

subsection \<open>Listings, preferences, errors\<close>

text \<open>
  A cell of a listing dict or of a DataFrame: a number, a string, Python's \<^verbatim>\<open>None\<close>
  (\<open>Null\<close>), or the double NaN, which is what the DataFrame constructor puts where a
  dict has no such key.
\<close>

datatype cell = Num rat | Text string | Null | NaN

type_synonym listing = "(string \<times> cell) list"

datatype error = KeyError string | TypeError

text \<open>
  \<^verbatim>\<open>user_preferences\<close>: each key may be absent (\<open>None\<close>), which is what the
  \<^verbatim>\<open>.get(key, default)\<close> calls of the source test.
\<close>

record preferences =
  max_price :: "rat option"
  min_beds :: "rat option"
  min_baths :: "rat option"
  priorities :: "(string \<times> rat) list option"

type_synonym series = "rat option list"

text \<open>Raising is \<open>Inl\<close>; \<open>ebind\<close> runs the next statement unless one has raised.\<close>

definition ebind :: "error + 'a \<Rightarrow> ('a \<Rightarrow> error + 'b) \<Rightarrow> error + 'b" where
  "ebind m f = (case m of Inl e \<Rightarrow> Inl e | Inr x \<Rightarrow> f x)"

subsection \<open>The DataFrame operations the scorer uses\<close>

text \<open>
  A frame keeps its column labels in order and its rows with their index label; every
  row is a dict over exactly the columns, so \<^verbatim>\<open>to_dict("records")\<close> is the rows.
\<close>

record data_frame =
  columns :: "string list"
  rows :: "(nat \<times> listing) list"

definition cell_at :: "listing \<Rightarrow> string \<Rightarrow> cell" where
  "cell_at r c = (case map_of r c of None \<Rightarrow> NaN | Some v \<Rightarrow> v)"

text \<open>The labels of a list in the order of their first appearance.\<close>

fun first_seen :: "string list \<Rightarrow> string list \<Rightarrow> string list" where
  "first_seen seen [] = rev seen"
| "first_seen seen (k # ks) =
     (if k \<in> set seen then first_seen seen ks else first_seen (k # seen) ks)"

fun is_text :: "cell \<Rightarrow> bool" where
  "is_text (Text s) = True"
| "is_text c = False"

text \<open>
  The constructor infers each column's type from its cells. A column that holds no
  string and holds a number or a NaN becomes a column of doubles, and a \<^verbatim>\<open>None\<close> in
  it becomes NaN; any other column (one with a string, or with nothing but \<^verbatim>\<open>None\<close>)
  keeps its objects as they are.
\<close>

definition float_column :: "cell list \<Rightarrow> bool" where
  "float_column cs = (\<not> list_ex is_text cs \<and> list_ex (\<lambda>v. v \<noteq> Null) cs)"

definition frame_cell :: "listing list \<Rightarrow> string \<Rightarrow> cell \<Rightarrow> cell" where
  "frame_cell listings c v =
     (if v = Null \<and> float_column (map (\<lambda>l. cell_at l c) listings) then NaN else v)"

text \<open>
  \<^verbatim>\<open>pd.DataFrame(listings)\<close>: the columns are the union of the dicts' keys, the index
  is 0, 1, ..., and a dict without a key gets NaN there.
\<close>

definition DataFrame :: "listing list \<Rightarrow> data_frame" where
  "DataFrame listings =
     (let cols = first_seen [] (concat (map (map fst) listings))
      in \<lparr>columns = cols,
          rows = zip [0 ..< length listings]
                   (map (\<lambda>l. map (\<lambda>c. (c, frame_cell listings c (cell_at l c))) cols)
                      listings)\<rparr>)"

text \<open>\<^verbatim>\<open>df[c]\<close> raises KeyError for a label that is not a column.\<close>

definition getitem :: "data_frame \<Rightarrow> string \<Rightarrow> error + cell list" where
  "getitem df c =
     (if c \<in> set (columns df) then Inr (map (\<lambda>r. cell_at (snd r) c) (rows df))
      else Inl (KeyError c))"

fun to_float :: "cell \<Rightarrow> rat option" where
  "to_float (Num x) = Some x"
| "to_float c = None"

text \<open>
  A column read as numbers. Comparing or subtracting a column that holds a string raises
  TypeError in pandas; a \<^verbatim>\<open>None\<close> compares false and computes as NaN does.
\<close>

definition numeric :: "cell list \<Rightarrow> error + series" where
  "numeric cs = (if list_ex is_text cs then Inl TypeError else Inr (map to_float cs))"

definition numeric_column :: "data_frame \<Rightarrow> string \<Rightarrow> error + series" where
  "numeric_column df c = ebind (getitem df c) numeric"

text \<open>\<^verbatim>\<open>df[mask]\<close>: the rows where the boolean mask holds.\<close>

definition select_rows :: "data_frame \<Rightarrow> bool list \<Rightarrow> data_frame" where
  "select_rows df keep = df\<lparr>rows := map fst (filter snd (zip (rows df) keep))\<rparr>"

text \<open>
  \<^verbatim>\<open>df[c] = values\<close>: an existing column is overwritten in place, a new one is
  appended as the last column.
\<close>

definition set_column :: "data_frame \<Rightarrow> string \<Rightarrow> cell list \<Rightarrow> data_frame" where
  "set_column df c vals =
     \<lparr>columns = (if c \<in> set (columns df) then columns df else columns df @ [c]),
      rows = map (\<lambda>(r, v). (fst r, AList.update c v (snd r))) (zip (rows df) vals)\<rparr>"

text \<open>
  \<^verbatim>\<open>df.sort_values(c, ascending=False)\<close> on a column of numbers. The order among equal
  keys is not fixed by the source (pandas' default sort is not stable); the model keeps
  their order, and no theorem below depends on it.
\<close>

definition sort_key_of :: "string \<Rightarrow> nat \<times> listing \<Rightarrow> rat" where
  "sort_key_of c r = (case cell_at (snd r) c of Num x \<Rightarrow> x | _ \<Rightarrow> 0)"

definition sort_values_desc :: "data_frame \<Rightarrow> string \<Rightarrow> data_frame" where
  "sort_values_desc df c = df\<lparr>rows := sort_key (\<lambda>r. - sort_key_of c r) (rows df)\<rparr>"

definition to_dict :: "data_frame \<Rightarrow> listing list" where
  "to_dict df = map snd (rows df)"

definition empty_frame :: "data_frame \<Rightarrow> bool" where
  "empty_frame df = (rows df = [] \<or> columns df = [])"

subsection \<open>Series arithmetic with NaN\<close>

fun dropna :: "series \<Rightarrow> rat list" where
  "dropna [] = []"
| "dropna (None # s) = dropna s"
| "dropna (Some x # s) = x # dropna s"

definition mean :: "rat list \<Rightarrow> rat" where
  "mean xs = sum_list xs / of_nat (length xs)"

text \<open>
  \<^verbatim>\<open>Series.std()\<close> skips NaN and divides by n - 1 (pandas' default \<^verbatim>\<open>ddof=1\<close>), so
  it is NaN for fewer than two values. It is the square root of \<open>var\<close>, and a square
  root is zero exactly when its argument is: the test \<^verbatim>\<open>series.std() == 0\<close> is made
  on the variance.

  The variance is exact here. In doubles the mean of equal values is that value when
  their sum is exact, as it is for whole numbers (prices, rooms, square feet, years),
  and the variance is then 0 as here. For equal values whose sum is rounded (three
  times 0.1) the doubles give a variance a little above 0: the code then takes the
  second branch of \<^verbatim>\<open>_normalize\<close>, divides 0 by 0, and the component is NaN for
  every row, where \<open>normalize_series\<close> gives zeros. What is proved below about a
  series with \<open>std_is_zero\<close> is proved of the code for values whose sums are exact.
\<close>

definition var :: "series \<Rightarrow> rat option" where
  "var s =
     (let xs = dropna s; n = length xs
      in if n \<le> 1 then None
         else Some (sum_list (map (\<lambda>x. (x - mean xs) ^ 2) xs) / of_nat (n - 1)))"

definition std_is_zero :: "series \<Rightarrow> bool" where
  "std_is_zero s = (var s = Some 0)"

definition series_min :: "series \<Rightarrow> rat option" where
  "series_min s = (if dropna s = [] then None else Some (Min (set (dropna s))))"

definition series_max :: "series \<Rightarrow> rat option" where
  "series_max s = (if dropna s = [] then None else Some (Max (set (dropna s))))"

fun nan_sub :: "rat option \<Rightarrow> rat option \<Rightarrow> rat option" where
  "nan_sub (Some x) (Some y) = Some (x - y)"
| "nan_sub a b = None"

text \<open>
  Division of doubles: 0 / 0 is NaN. A non-zero value over zero would be an infinity;
  \<open>normalize_series\<close> never divides one (\<open>normalize_zero_range\<close> below).
\<close>

fun nan_div :: "rat option \<Rightarrow> rat option \<Rightarrow> rat option" where
  "nan_div (Some x) (Some y) = (if y = 0 then None else Some (x / y))"
| "nan_div a b = None"

definition fillna :: "rat \<Rightarrow> series \<Rightarrow> series" where
  "fillna d s = map (\<lambda>v. Some (case v of None \<Rightarrow> d | Some x \<Rightarrow> x)) s"

text \<open>\<^verbatim>\<open>HouseScorer._normalize\<close>.\<close>

definition normalize_series :: "series \<Rightarrow> series" where
  "normalize_series s =
     (if std_is_zero s \<or> length s = 0 then map (\<lambda>v. Some 0) s
      else map (\<lambda>v. nan_div (nan_sub v (series_min s))
                            (nan_sub (series_max s) (series_min s))) s)"

text \<open>\<^verbatim>\<open>100 - x * 100\<close> and \<^verbatim>\<open>x * 100\<close> on a series.\<close>

definition inverted :: "series \<Rightarrow> series" where
  "inverted s = map (map_option (\<lambda>n. 100 - n * 100)) s"

definition scaled :: "series \<Rightarrow> series" where
  "scaled s = map (map_option (\<lambda>n. n * 100)) s"

subsection \<open>The scorer\<close>

text \<open>
  Lines 46 to 50, the hard requirements. A comparison with NaN is false, so a row
  whose price, beds or baths is missing is dropped. \<^verbatim>\<open>max_price\<close> defaults to
  infinity, the two minima to 0.
\<close>

definition le_bound :: "rat option \<Rightarrow> rat option \<Rightarrow> bool" where
  "le_bound v bound =
     (case v of None \<Rightarrow> False
      | Some x \<Rightarrow> (case bound of None \<Rightarrow> True | Some m \<Rightarrow> x \<le> m))"

definition ge_value :: "rat option \<Rightarrow> rat \<Rightarrow> bool" where
  "ge_value v m = (case v of None \<Rightarrow> False | Some x \<Rightarrow> m \<le> x)"

definition get_or :: "'a \<Rightarrow> 'a option \<Rightarrow> 'a" where
  "get_or d v = (case v of None \<Rightarrow> d | Some x \<Rightarrow> x)"

definition hard_filter :: "data_frame \<Rightarrow> preferences \<Rightarrow> error + data_frame" where
  "hard_filter df prefs =
     ebind (numeric_column df ''price'') (\<lambda>price.
     ebind (numeric_column df ''beds'') (\<lambda>beds.
     ebind (numeric_column df ''baths'') (\<lambda>baths.
       Inr (select_rows df
         (map (\<lambda>(p, b, t). le_bound p (max_price prefs)
                 \<and> ge_value b (get_or 0 (min_beds prefs))
                 \<and> ge_value t (get_or 0 (min_baths prefs)))
            (zip price (zip beds baths)))))))"

text \<open>\<^verbatim>\<open>priorities.get(key, 0)\<close>, with \<^verbatim>\<open>priorities\<close> defaulting to the empty dict.\<close>

definition weight :: "preferences \<Rightarrow> string \<Rightarrow> rat" where
  "weight prefs k = get_or 0 (map_of (get_or [] (priorities prefs)) k)"

text \<open>
  One of the five guarded blocks of lines 59 to 81: when the column exists and the
  criterion's weight is positive, the transformed column is stored in \<^verbatim>\<open>scores\<close>.
\<close>

definition add_component ::
  "data_frame \<Rightarrow> preferences \<Rightarrow> string \<Rightarrow> string \<Rightarrow> string \<Rightarrow> (series \<Rightarrow> series)
     \<Rightarrow> (string \<times> series) list \<Rightarrow> error + (string \<times> series) list" where
  "add_component df prefs col criterion name f scores =
     (if col \<in> set (columns df) \<and> 0 < weight prefs criterion
      then ebind (numeric_column df col) (\<lambda>s. Inr (AList.update name (f s) scores))
      else Inr scores)"

definition price_score :: "series \<Rightarrow> series" where
  "price_score s = inverted (normalize_series s)"

definition location_score :: "series \<Rightarrow> series" where
  "location_score s = inverted (normalize_series s)"

definition size_score :: "series \<Rightarrow> series" where
  "size_score s = scaled (normalize_series s)"

text \<open>Line 73: the target is \<^verbatim>\<open>min_beds\<close>, and 3 when the preferences have none.\<close>

definition bedroom_score :: "preferences \<Rightarrow> series \<Rightarrow> series" where
  "bedroom_score prefs s =
     (let target_beds = get_or 3 (min_beds prefs);
          bed_diff = map (map_option (\<lambda>b. \<bar>b - target_beds\<bar>)) s
      in inverted (normalize_series bed_diff))"

definition age_score :: "series \<Rightarrow> series" where
  "age_score s =
     (let current_year = 2024;
          age = map (map_option (\<lambda>y. current_year - y)) (fillna 1900 s)
      in inverted (normalize_series age))"

definition component_scores ::
  "data_frame \<Rightarrow> preferences \<Rightarrow> error + (string \<times> series) list" where
  "component_scores df prefs =
     ebind (add_component df prefs ''price'' ''price'' ''price_score'' price_score [])
       (\<lambda>s1.
     ebind (add_component df prefs ''distance_to_downtown'' ''location''
              ''location_score'' location_score s1) (\<lambda>s2.
     ebind (add_component df prefs ''sqft'' ''size'' ''size_score'' size_score s2) (\<lambda>s3.
     ebind (add_component df prefs ''beds'' ''bedrooms'' ''bedroom_score''
              (bedroom_score prefs) s3) (\<lambda>s4.
     add_component df prefs ''year_built'' ''age'' ''age_score'' age_score s4))))"

text \<open>
  \<^verbatim>\<open>str.replace(old, new)\<close> for a non-empty \<open>old\<close>: every occurrence, left to right,
  without overlap.
\<close>

fun str_replace :: "string \<Rightarrow> string \<Rightarrow> string \<Rightarrow> string" where
  "str_replace old new [] = []"
| "str_replace old new (c # s) =
     (if old \<noteq> [] \<and> prefix old (c # s)
      then new @ str_replace old new (drop (length old - 1) s)
      else c # str_replace old new s)"

text \<open>
  Lines 84 to 88: the accumulator starts at zeros, and every column of \<^verbatim>\<open>scores\<close>
  adds its values, NaN replaced by 50, times the weight found under the column's name
  without \<^verbatim>\<open>_score\<close>.
\<close>

definition weight_key :: "string \<Rightarrow> string" where
  "weight_key component = str_replace ''_score'' [] component"

definition add_weighted :: "preferences \<Rightarrow> string \<times> series \<Rightarrow> rat list \<Rightarrow> rat list" where
  "add_weighted prefs component acc =
     map (\<lambda>(a, v). a + get_or 50 v * weight prefs (weight_key (fst component)))
       (zip acc (snd component))"

definition final_scores :: "preferences \<Rightarrow> (string \<times> series) list \<Rightarrow> nat \<Rightarrow> rat list" where
  "final_scores prefs scores n = fold (add_weighted prefs) scores (replicate n 0)"

text \<open>
  \<^verbatim>\<open>round(2)\<close>: numpy rounds the value times 100 to the nearest integer, a tie to the
  even one, and divides by 100.
\<close>

definition rint :: "rat \<Rightarrow> int" where
  "rint x =
     (let f = \<lfloor>x\<rfloor>; d = x - of_int f
      in if d < 1 / 2 then f else if 1 / 2 < d then f + 1
         else if even f then f else f + 1)"

definition round2 :: "rat \<Rightarrow> rat" where
  "round2 x = of_int (rint (x * 100)) / 100"

text \<open>
  \<^verbatim>\<open>rank(ascending=False, method="dense")\<close>: one more than the number of distinct
  values of the series that are greater.
\<close>

definition dense_rank :: "rat list \<Rightarrow> rat \<Rightarrow> nat" where
  "dense_rank scores s = Suc (length (remdups (filter (\<lambda>t. s < t) scores)))"

text \<open>Lines 90 to 94.\<close>

definition rank_and_sort :: "data_frame \<Rightarrow> rat list \<Rightarrow> data_frame" where
  "rank_and_sort df final =
     (let score = map round2 final;
          df1 = set_column df ''score'' (map Num score);
          df2 = set_column df1 ''rank'' (map (\<lambda>s. Num (of_nat (dense_rank score s))) score)
      in sort_values_desc df2 ''score'')"

definition score_listings :: "listing list \<Rightarrow> preferences \<Rightarrow> error + listing list" where
  "score_listings listings prefs =
     (if listings = [] then Inr []
      else ebind (hard_filter (DataFrame listings) prefs) (\<lambda>df.
        if empty_frame df then Inr []
        else ebind (component_scores df prefs) (\<lambda>scores.
          Inr (to_dict
            (rank_and_sort df (final_scores prefs scores (length (rows df))))))))"

subsection \<open>The call on a store\<close>

text \<open>
  The call with its argument passed by reference. The store holds the objects; a
  reference is a position in it. The list \<^verbatim>\<open>listings\<close> and its dicts are objects of the
  caller; the frames, the table \<^verbatim>\<open>scores\<close> and the array \<^verbatim>\<open>final_scores\<close> are made by
  the call (the DataFrame constructor, \<^verbatim>\<open>df[mask]\<close>, \<^verbatim>\<open>sort_values\<close> and \<^verbatim>\<open>np.zeros\<close>
  return new objects), and its assignments write to those.
\<close>

datatype pyobj =
  PyList "nat list" | PyDict listing | PyFrame data_frame
  | PyScores "(string \<times> series) list" | PyArray "rat list"

type_synonym store = "pyobj list"

definition new_object :: "pyobj \<Rightarrow> store \<Rightarrow> nat \<times> store" where
  "new_object ob st = (length st, st @ [ob])"

definition assign :: "nat \<Rightarrow> pyobj \<Rightarrow> store \<Rightarrow> store" where
  "assign ref ob st = st[ref := ob]"

fun is_dict :: "pyobj \<Rightarrow> bool" where
  "is_dict (PyDict d) = True"
| "is_dict ob = False"

fun the_dict :: "pyobj \<Rightarrow> listing" where
  "the_dict (PyDict d) = d"
| "the_dict ob = []"

fun the_frame :: "pyobj \<Rightarrow> data_frame" where
  "the_frame (PyFrame f) = f"
| "the_frame ob = \<lparr>columns = [], rows = []\<rparr>"

fun the_scores :: "pyobj \<Rightarrow> (string \<times> series) list" where
  "the_scores (PyScores sc) = sc"
| "the_scores ob = []"

fun the_array :: "pyobj \<Rightarrow> rat list" where
  "the_array (PyArray xs) = xs"
| "the_array ob = []"

text \<open>The list of dicts a reference denotes, when it denotes one.\<close>

definition listings_at :: "store \<Rightarrow> nat \<Rightarrow> listing list option" where
  "listings_at st ref =
     (if ref < length st
      then (case st ! ref of
              PyList refs \<Rightarrow>
                if list_all (\<lambda>r. r < length st \<and> is_dict (st ! r)) refs
                then Some (map (\<lambda>r. the_dict (st ! r)) refs) else None
            | _ \<Rightarrow> None)
      else None)"

text \<open>One guarded block of lines 59 to 81: \<^verbatim>\<open>scores[name] = ...\<close> writes the table.\<close>

definition store_component ::
  "nat \<Rightarrow> nat \<Rightarrow> preferences \<Rightarrow> string \<Rightarrow> string \<Rightarrow> string \<Rightarrow> (series \<Rightarrow> series)
     \<Rightarrow> store \<Rightarrow> (error + unit) \<times> store" where
  "store_component df scores prefs col criterion name f st =
     (if col \<in> set (columns (the_frame (st ! df))) \<and> 0 < weight prefs criterion
      then (case numeric_column (the_frame (st ! df)) col of
              Inl e \<Rightarrow> (Inl e, st)
            | Inr s \<Rightarrow>
                (Inr (), assign scores
                   (PyScores (AList.update name (f s) (the_scores (st ! scores)))) st))
      else (Inr (), st))"

definition then_store ::
  "(error + unit) \<times> store \<Rightarrow> (store \<Rightarrow> (error + 'a) \<times> store) \<Rightarrow> (error + 'a) \<times> store" where
  "then_store r f = (case fst r of Inl e \<Rightarrow> (Inl e, snd r) | Inr u \<Rightarrow> f (snd r))"

definition store_components ::
  "nat \<Rightarrow> nat \<Rightarrow> preferences \<Rightarrow> store \<Rightarrow> (error + unit) \<times> store" where
  "store_components df scores prefs st =
     then_store (store_component df scores prefs ''price'' ''price'' ''price_score''
                   price_score st) (\<lambda>st.
     then_store (store_component df scores prefs ''distance_to_downtown'' ''location''
                   ''location_score'' location_score st) (\<lambda>st.
     then_store (store_component df scores prefs ''sqft'' ''size'' ''size_score''
                   size_score st) (\<lambda>st.
     then_store (store_component df scores prefs ''beds'' ''bedrooms'' ''bedroom_score''
                   (bedroom_score prefs) st) (\<lambda>st.
     store_component df scores prefs ''year_built'' ''age'' ''age_score'' age_score st))))"

text \<open>Lines 85 to 88: \<^verbatim>\<open>final_scores += ...\<close> writes the array.\<close>

definition store_loop :: "nat \<Rightarrow> nat \<Rightarrow> preferences \<Rightarrow> store \<Rightarrow> store" where
  "store_loop final scores prefs st =
     fold (\<lambda>component s.
             assign final (PyArray (add_weighted prefs component (the_array (s ! final)))) s)
       (the_scores (st ! scores)) st"

definition score_listings_store ::
  "nat \<Rightarrow> preferences \<Rightarrow> store \<Rightarrow> (error + listing list) \<times> store" where
  "score_listings_store listings prefs st =
     (case listings_at st listings of
        None \<Rightarrow> (Inl TypeError, st)
      | Some ls \<Rightarrow>
          if ls = [] then (Inr [], st)
          else
            let (df0, st1) = new_object (PyFrame (DataFrame ls)) st
            in (case hard_filter (the_frame (st1 ! df0)) prefs of
                  Inl e \<Rightarrow> (Inl e, st1)
                | Inr filtered \<Rightarrow>
                    let (df, st2) = new_object (PyFrame filtered) st1
                    in if empty_frame (the_frame (st2 ! df)) then (Inr [], st2)
                       else
                         let (scores, st3) = new_object (PyScores []) st2
                         in then_store (store_components df scores prefs st3) (\<lambda>st4.
                              let (final, st5) =
                                    new_object
                                      (PyArray (replicate (length (rows (the_frame (st4 ! df)))) 0))
                                      st4;
                                  st6 = store_loop final scores prefs st5;
                                  score = map round2 (the_array (st6 ! final));
                                  st7 = assign df
                                          (PyFrame (set_column (the_frame (st6 ! df)) ''score''
                                             (map Num score))) st6;
                                  st8 = assign df
                                          (PyFrame (set_column (the_frame (st7 ! df)) ''rank''
                                             (map (\<lambda>s. Num (of_nat (dense_rank score s))) score)))
                                          st7;
                                  (sorted, st9) =
                                    new_object
                                      (PyFrame (sort_values_desc (the_frame (st8 ! df)) ''score''))
                                      st8
                              in (Inr (to_dict (the_frame (st9 ! sorted))), st9))))"

subsection \<open>Notions the properties are stated with\<close>

text \<open>What the mask of lines 46 to 50 computes for one row.\<close>

definition passes :: "preferences \<Rightarrow> listing \<Rightarrow> bool" where
  "passes prefs r =
     (le_bound (to_float (cell_at r ''price'')) (max_price prefs)
      \<and> ge_value (to_float (cell_at r ''beds'')) (get_or 0 (min_beds prefs))
      \<and> ge_value (to_float (cell_at r ''baths'')) (get_or 0 (min_baths prefs)))"

text \<open>The columns of \<open>DataFrame listings\<close>, and the row it makes of one dict.\<close>

definition all_keys :: "listing list \<Rightarrow> string list" where
  "all_keys listings = first_seen [] (concat (map (map fst) listings))"

definition as_row :: "listing list \<Rightarrow> listing \<Rightarrow> listing" where
  "as_row listings l =
     map (\<lambda>c. (c, frame_cell listings c (cell_at l c))) (all_keys listings)"

text \<open>Well-formed input: no string in a field the scorer computes with.\<close>

definition numeric_fields :: "listing \<Rightarrow> bool" where
  "numeric_fields l =
     list_all (\<lambda>c. \<not> is_text (cell_at l c))
       [''price'', ''beds'', ''baths'', ''distance_to_downtown'', ''sqft'', ''year_built'']"

text \<open>A column of a frame read as numbers, as \<open>numeric_column\<close> returns it.\<close>

definition column :: "data_frame \<Rightarrow> string \<Rightarrow> series" where
  "column df c = map (\<lambda>r. to_float (cell_at (snd r) c)) (rows df)"

text \<open>The \<^verbatim>\<open>score\<close> and \<^verbatim>\<open>rank\<close> fields of an output record.\<close>

definition score_of :: "listing \<Rightarrow> rat" where
  "score_of r = (case cell_at r ''score'' of Num x \<Rightarrow> x | _ \<Rightarrow> 0)"

definition rank_of :: "listing \<Rightarrow> nat" where
  "rank_of r = (case cell_at r ''rank'' of Num x \<Rightarrow> nat \<lfloor>x\<rfloor> | _ \<Rightarrow> 0)"

text \<open>
  What the loop of lines 85 to 88 has added up for the row at position \<open>k\<close>, in closed
  form (\<open>final_scores_nth\<close>): each column with the weight the loop looks up for it.
\<close>

definition loop_total :: "preferences \<Rightarrow> (string \<times> series) list \<Rightarrow> nat \<Rightarrow> rat" where
  "loop_total prefs scores k =
     (\<Sum>c \<leftarrow> scores. get_or 50 (snd c ! k) * weight prefs (weight_key (fst c)))"



text \<open>
  The component score of column \<open>name\<close> that the loop of lines 85 to 88 adds, weighted,
  to the total of the row at position \<open>k\<close> (\<open>component_used_in_total\<close>).
\<close>

definition component_used :: "(string \<times> series) list \<Rightarrow> string \<Rightarrow> nat \<Rightarrow> rat option" where
  "component_used scores name k = map_option (\<lambda>s. get_or 50 (s ! k)) (map_of scores name)"

text \<open>A row of the frame with its score and rank set, for the row's unrounded total.\<close>

definition with_score :: "rat list \<Rightarrow> (nat \<times> listing) \<times> rat \<Rightarrow> nat \<times> listing" where
  "with_score final rx =
     (fst (fst rx),
      AList.update ''rank'' (Num (of_nat (dense_rank (map round2 final) (round2 (snd rx)))))
        (AList.update ''score'' (Num (round2 (snd rx))) (snd (fst rx))))"

text \<open>
  The output record of the row at position \<open>k\<close> of the filtered frame, for the list of
  the unrounded weighted sums of the rows: the row with its score and its rank set.
\<close>

definition scored_row :: "data_frame \<Rightarrow> rat list \<Rightarrow> nat \<Rightarrow> listing" where
  "scored_row df totals k =
     AList.update ''rank'' (Num (of_nat (dense_rank (map round2 totals) (round2 (totals ! k)))))
       (AList.update ''score'' (Num (round2 (totals ! k))) (snd (rows df ! k)))"

subsection \<open>Concrete inputs\<close>

text \<open>Three listings that pass, two of them with the same price, and one without a price.\<close>

definition tie_listings :: "listing list" where
  "tie_listings =
     [[(''id'', Text ''a''), (''price'', Num 100), (''beds'', Num 3), (''baths'', Num 2)],
      [(''id'', Text ''b''), (''beds'', Num 4), (''baths'', Num 2)],
      [(''id'', Text ''c''), (''price'', Num 200), (''beds'', Num 3), (''baths'', Num 1)],
      [(''id'', Text ''d''), (''price'', Num 100), (''beds'', Num 5), (''baths'', Num 3)]]"

definition price_only :: preferences where
  "price_only = \<lparr>max_price = Some 250, min_beds = Some 3, min_baths = None,
                  priorities = Some [(''price'', 1)]\<rparr>"

definition tie_out :: "listing list" where
  "tie_out =
     [[(''id'', Text ''a''), (''price'', Num 100), (''beds'', Num 3), (''baths'', Num 2),
       (''score'', Num 100), (''rank'', Num 1)],
      [(''id'', Text ''d''), (''price'', Num 100), (''beds'', Num 5), (''baths'', Num 3),
       (''score'', Num 100), (''rank'', Num 1)],
      [(''id'', Text ''c''), (''price'', Num 200), (''beds'', Num 3), (''baths'', Num 1),
       (''score'', Num 0), (''rank'', Num 2)]]"

text \<open>Listings none of which has a \<^verbatim>\<open>price\<close> key.\<close>

definition no_price :: "listing list" where
  "no_price = [[(''id'', Text ''1''), (''address'', Text ''123 Main St''),
                (''beds'', Num 3), (''baths'', Num 2)]]"

definition no_preferences :: preferences where
  "no_preferences = \<lparr>max_price = None, min_beds = None, min_baths = None, priorities = None\<rparr>"

definition no_price_two :: "listing list" where
  "no_price_two = [[(''id'', Text ''7''), (''beds'', Num 2), (''baths'', Num 1)],
                   [(''id'', Text ''8''), (''beds'', Num 4), (''baths'', Num 2)]]"

definition negative_max_price :: preferences where
  "negative_max_price =
     \<lparr>max_price = Some (- 1), min_beds = None, min_baths = None, priorities = None\<rparr>"

text \<open>A single listing, scored on price alone.\<close>

definition single_listing :: "listing list" where
  "single_listing =
     [[(''id'', Text ''1''), (''price'', Num 400000), (''beds'', Num 3), (''baths'', Num 2)]]"

definition price_weight :: preferences where
  "price_weight = \<lparr>max_price = None, min_beds = None, min_baths = None,
                    priorities = Some [(''price'', 1)]\<rparr>"

text \<open>Two listings with 1 and 4 bedrooms, and preferences without \<^verbatim>\<open>min_beds\<close>.\<close>

definition beds_listings :: "listing list" where
  "beds_listings =
     [[(''id'', Text ''s''), (''price'', Num 100), (''beds'', Num 1), (''baths'', Num 1)],
      [(''id'', Text ''t''), (''price'', Num 100), (''beds'', Num 4), (''baths'', Num 1)]]"

definition bedrooms_only :: preferences where
  "bedrooms_only = \<lparr>max_price = None, min_beds = None, min_baths = None,
                     priorities = Some [(''bedrooms'', 1)]\<rparr>"

definition beds_out :: "listing list" where
  "beds_out =
     [[(''id'', Text ''s''), (''price'', Num 100), (''beds'', Num 1), (''baths'', Num 1),
       (''score'', Num 0), (''rank'', Num 1)],
      [(''id'', Text ''t''), (''price'', Num 100), (''beds'', Num 4), (''baths'', Num 1),
       (''score'', Num 0), (''rank'', Num 1)]]"

text \<open>Two listings, one without \<^verbatim>\<open>year_built\<close>, scored on age alone.\<close>

definition age_listings :: "listing list" where
  "age_listings =
     [[(''id'', Text ''u''), (''price'', Num 100), (''beds'', Num 3), (''baths'', Num 2),
       (''year_built'', Num 2000)],
      [(''id'', Text ''v''), (''price'', Num 100), (''beds'', Num 3), (''baths'', Num 2)]]"

definition age_only :: preferences where
  "age_only = \<lparr>max_price = None, min_beds = None, min_baths = None,
                priorities = Some [(''age'', 1)]\<rparr>"

definition age_out :: "listing list" where
  "age_out =
     [[(''id'', Text ''u''), (''price'', Num 100), (''beds'', Num 3), (''baths'', Num 2),
       (''year_built'', Num 2000), (''score'', Num 100), (''rank'', Num 1)],
      [(''id'', Text ''v''), (''price'', Num 100), (''beds'', Num 3), (''baths'', Num 2),
       (''year_built'', NaN), (''score'', Num 0), (''rank'', Num 2)]]"

text \<open>Three listings, the last without \<^verbatim>\<open>sqft\<close>, scored on size alone.\<close>

definition size_listings :: "listing list" where
  "size_listings =
     [[(''id'', Text ''x''), (''price'', Num 100), (''beds'', Num 3), (''baths'', Num 2),
       (''sqft'', Num 1000)],
      [(''id'', Text ''y''), (''price'', Num 100), (''beds'', Num 3), (''baths'', Num 2),
       (''sqft'', Num 2000)],
      [(''id'', Text ''z''), (''price'', Num 100), (''beds'', Num 3), (''baths'', Num 2)]]"

definition size_only :: preferences where
  "size_only = \<lparr>max_price = None, min_beds = None, min_baths = None,
                 priorities = Some [(''size'', 1)]\<rparr>"

definition size_out :: "listing list" where
  "size_out =
     [[(''id'', Text ''y''), (''price'', Num 100), (''beds'', Num 3), (''baths'', Num 2),
       (''sqft'', Num 2000), (''score'', Num 100), (''rank'', Num 1)],
      [(''id'', Text ''z''), (''price'', Num 100), (''beds'', Num 3), (''baths'', Num 2),
       (''sqft'', NaN), (''score'', Num 50), (''rank'', Num 2)],
      [(''id'', Text ''x''), (''price'', Num 100), (''beds'', Num 3), (''baths'', Num 2),
       (''sqft'', Num 1000), (''score'', Num 0), (''rank'', Num 3)]]"

text \<open>The same three listings when the two sizes are equal.\<close>

definition same_size_listings :: "listing list" where
  "same_size_listings =
     [[(''id'', Text ''x''), (''price'', Num 100), (''beds'', Num 3), (''baths'', Num 2),
       (''sqft'', Num 2000)],
      [(''id'', Text ''y''), (''price'', Num 100), (''beds'', Num 3), (''baths'', Num 2),
       (''sqft'', Num 2000)],
      [(''id'', Text ''z''), (''price'', Num 100), (''beds'', Num 3), (''baths'', Num 2)]]"




text \<open>The listings with and without \<^verbatim>\<open>sqft\<close>, as objects of a store: three dicts and their list.\<close>

definition size_store :: store where
  "size_store = map PyDict size_listings @ [PyList [0, 1, 2]]"

text \<open>Two listings, the second with an explicit \<^verbatim>\<open>None\<close> for \<^verbatim>\<open>year_built\<close>.\<close>

definition none_listings :: "listing list" where
  "none_listings =
     [[(''id'', Text ''p''), (''price'', Num 100), (''beds'', Num 3), (''baths'', Num 2),
       (''year_built'', Num 2000)],
      [(''id'', Text ''q''), (''price'', Num 100), (''beds'', Num 3), (''baths'', Num 2),
       (''year_built'', Null)]]"

definition none_store :: store where
  "none_store = map PyDict none_listings @ [PyList [0, 1]]"

definition none_out :: "listing list" where
  "none_out =
     [[(''id'', Text ''p''), (''price'', Num 100), (''beds'', Num 3), (''baths'', Num 2),
       (''year_built'', Num 2000), (''score'', Num 0), (''rank'', Num 1)],
      [(''id'', Text ''q''), (''price'', Num 100), (''beds'', Num 3), (''baths'', Num 2),
       (''year_built'', NaN), (''score'', Num 0), (''rank'', Num 1)]]"

section \<open>Lemmas\<close>

subsection \<open>Errors and columns\<close>

lemma ebind_Inr: "(ebind m f = Inr y) = (\<exists>x. m = Inr x \<and> f x = Inr y)"
  by (cases m) (simp_all add: ebind_def)

lemma ebind_Inl: "(ebind m f = Inl e) = (m = Inl e \<or> (\<exists>x. m = Inr x \<and> f x = Inl e))"
  by (cases m) (simp_all add: ebind_def)

lemma to_float_Some: "to_float c = Some x \<longleftrightarrow> c = Num x"
  by (cases c) auto

lemma numeric_column_Inr:
  "(numeric_column df c = Inr s) =
     (c \<in> set (columns df) \<and> \<not> list_ex is_text (map (\<lambda>r. cell_at (snd r) c) (rows df))
      \<and> s = map (\<lambda>r. to_float (cell_at (snd r) c)) (rows df))"
  by (auto simp: numeric_column_def getitem_def numeric_def ebind_Inr comp_def)

lemma numeric_column_ok:
  assumes "col \<in> set (columns df)" and "\<forall>r \<in> set (rows df). \<not> is_text (cell_at (snd r) col)"
  shows "numeric_column df col = Inr (map (\<lambda>r. to_float (cell_at (snd r) col)) (rows df))"
  using assms by (auto simp: numeric_column_Inr list_ex_iff)

lemma length_column: "length (column df c) = length (rows df)"
  by (simp add: column_def)

lemma column_null:
  "k < length (rows df) \<Longrightarrow>
     cell_at (snd (rows df ! k)) c = NaN \<or> cell_at (snd (rows df ! k)) c = Null \<Longrightarrow>
     column df c ! k = None"
  by (auto simp: column_def)

lemma column_all_numbers:
  assumes "\<forall>r \<in> set (rows df). \<exists>b. cell_at (snd r) c = Num b"
  shows "\<exists>bs. map (\<lambda>r. cell_at (snd r) c) (rows df) = map Num bs \<and> column df c = map Some bs"
proof -
  define bs where "bs = map (\<lambda>r. the (to_float (cell_at (snd r) c))) (rows df)"
  have "cell_at (snd r) c = Num (the (to_float (cell_at (snd r) c)))" if "r \<in> set (rows df)" for r
    using assms that by force
  then have "map (\<lambda>r. cell_at (snd r) c) (rows df) = map Num bs"
    unfolding bs_def by (simp add: comp_def)
  moreover have "to_float (cell_at (snd r) c) = Some (the (to_float (cell_at (snd r) c)))"
    if "r \<in> set (rows df)" for r
    using assms that by force
  then have "column df c = map Some bs"
    unfolding bs_def column_def by (simp add: comp_def)
  ultimately show ?thesis by blast
qed

subsection \<open>The frame of the listings\<close>

lemma set_first_seen: "set (first_seen seen ks) = set seen \<union> set ks"
  by (induction seen ks rule: first_seen.induct) auto

lemma distinct_first_seen: "distinct seen \<Longrightarrow> distinct (first_seen seen ks)"
  by (induction seen ks rule: first_seen.induct) auto

lemma set_all_keys: "set (all_keys ls) = (\<Union>l \<in> set ls. fst ` set l)"
  by (auto simp: all_keys_def set_first_seen)

lemma distinct_all_keys: "distinct (all_keys ls)"
  by (simp add: all_keys_def distinct_first_seen)

lemma DataFrame_eq:
  "DataFrame ls = \<lparr>columns = all_keys ls,
                    rows = zip [0 ..< length ls] (map (as_row ls) ls)\<rparr>"
  by (simp add: DataFrame_def all_keys_def as_row_def[abs_def] Let_def)

lemma to_float_frame_cell: "to_float (frame_cell ls c v) = to_float v"
  by (cases v) (simp_all add: frame_cell_def)

lemma is_text_frame_cell: "is_text (frame_cell ls c v) = is_text v"
  by (cases v) (simp_all add: frame_cell_def)

lemma frame_cell_number: "frame_cell ls c v = Num x \<longleftrightarrow> v = Num x"
  by (cases v) (simp_all add: frame_cell_def)

lemma map_of_pairs: "map_of (map (\<lambda>c. (c, f c)) cs) c = (if c \<in> set cs then Some (f c) else None)"
  by (induction cs) auto

lemma map_of_as_row:
  "map_of (as_row ls l) c =
     (if c \<in> set (all_keys ls) then Some (frame_cell ls c (cell_at l c)) else None)"
  by (simp add: as_row_def map_of_pairs)

lemma cell_at_as_row:
  "cell_at (as_row ls l) c =
     (if c \<in> set (all_keys ls) then frame_cell ls c (cell_at l c) else NaN)"
  by (simp add: cell_at_def map_of_as_row)

lemma keys_as_row: "map fst (as_row ls l) = all_keys ls"
  by (simp add: as_row_def comp_def)

lemma cell_at_Some: "map_of l c = Some v \<Longrightarrow> cell_at l c = v"
  by (simp add: cell_at_def)

lemma cell_at_None: "c \<notin> fst ` set l \<Longrightarrow> cell_at l c = NaN"
  using map_of_eq_None_iff[of l c] by (simp add: cell_at_def)

lemma rows_DataFrame_nth:
  "k < length ls \<Longrightarrow> rows (DataFrame ls) ! k = (k, as_row ls (ls ! k))"
  by (simp add: DataFrame_eq)

lemma in_rows_DataFrame:
  "(i, r) \<in> set (rows (DataFrame ls)) \<longleftrightarrow> i < length ls \<and> r = as_row ls (ls ! i)"
proof
  assume "(i, r) \<in> set (rows (DataFrame ls))"
  then show "i < length ls \<and> r = as_row ls (ls ! i)"
    by (auto simp: DataFrame_eq in_set_zip)
next
  assume a: "i < length ls \<and> r = as_row ls (ls ! i)"
  then have "rows (DataFrame ls) ! i = (i, r)"
    by (simp add: DataFrame_eq)
  moreover have "i < length (rows (DataFrame ls))"
    using a by (simp add: DataFrame_eq)
  ultimately show "(i, r) \<in> set (rows (DataFrame ls))"
    by (metis nth_mem)
qed

lemma index_DataFrame: "map fst (rows (DataFrame ls)) = [0 ..< length ls]"
  by (simp add: DataFrame_eq)

lemma frame_cell_cases:
  "v \<noteq> Null \<Longrightarrow> frame_cell ls c v = v"
  "frame_cell ls c Null = (if float_column (map (\<lambda>l. cell_at l c) ls) then NaN else Null)"
  by (simp_all add: frame_cell_def)

subsection \<open>The hard filter\<close>

lemma select_zip3:
  "map fst (filter snd (zip xs (map g (zip (map a xs) (zip (map b xs) (map c xs))))))
     = filter (\<lambda>r. g (a r, b r, c r)) xs"
  by (induction xs) auto

lemma hard_filter_Inr:
  assumes "hard_filter df0 prefs = Inr df"
  shows "columns df = columns df0"
    and "rows df = filter (\<lambda>r. passes prefs (snd r)) (rows df0)"
    and "''price'' \<in> set (columns df0)" and "''beds'' \<in> set (columns df0)"
    and "''baths'' \<in> set (columns df0)"
  using assms
  by (auto simp: hard_filter_def ebind_Inr numeric_column_Inr select_rows_def select_zip3
      passes_def)

lemma passes_iff:
  "passes prefs r \<longleftrightarrow>
     (\<exists>p b t. cell_at r ''price'' = Num p \<and> cell_at r ''beds'' = Num b
        \<and> cell_at r ''baths'' = Num t
        \<and> (case max_price prefs of None \<Rightarrow> True | Some m \<Rightarrow> p \<le> m)
        \<and> (case min_beds prefs of None \<Rightarrow> 0 | Some m \<Rightarrow> m) \<le> b
        \<and> (case min_baths prefs of None \<Rightarrow> 0 | Some m \<Rightarrow> m) \<le> t)"
  by (auto simp: passes_def le_bound_def ge_value_def get_or_def to_float_Some
      split: option.splits)

lemma passes_beds: "passes prefs r \<Longrightarrow> \<exists>b. cell_at r ''beds'' = Num b"
  by (auto simp: passes_iff)

lemma hard_filter_ok:
  assumes keys: "{''price'', ''beds'', ''baths''} \<subseteq> (\<Union>l \<in> set ls. fst ` set l)"
    and wf: "\<forall>l \<in> set ls. numeric_fields l"
  shows "hard_filter (DataFrame ls) prefs
    = Inr ((DataFrame ls)\<lparr>rows := filter (\<lambda>r. passes prefs (snd r)) (rows (DataFrame ls))\<rparr>)"
proof -
  have cols: "''price'' \<in> set (columns (DataFrame ls))" "''beds'' \<in> set (columns (DataFrame ls))"
    "''baths'' \<in> set (columns (DataFrame ls))"
    using keys by (simp_all add: DataFrame_eq set_all_keys)
  have nt: "\<not> is_text (cell_at (snd r) c)"
    if "r \<in> set (rows (DataFrame ls))" "c \<in> {''price'', ''beds'', ''baths''}" for r c
  proof -
    from that(1) have "fst r < length ls" "snd r = as_row ls (ls ! fst r)"
      using in_rows_DataFrame[of "fst r" "snd r" ls] by simp_all
    moreover have "numeric_fields (ls ! fst r)"
      using wf \<open>fst r < length ls\<close> by simp
    ultimately show ?thesis
      using that(2) by (auto simp: cell_at_as_row to_float_frame_cell is_text_frame_cell frame_cell_number numeric_fields_def)
  qed
  have "numeric_column (DataFrame ls) c
      = Inr (map (\<lambda>r. to_float (cell_at (snd r) c)) (rows (DataFrame ls)))"
    if "c \<in> {''price'', ''beds'', ''baths''}" for c
    using that cols nt by (intro numeric_column_ok) auto
  then show ?thesis
    by (simp add: hard_filter_def ebind_def select_rows_def select_zip3 passes_def)
qed

subsection \<open>Normalization\<close>

lemma length_normalize: "length (normalize_series s) = length s"
  by (simp add: normalize_series_def)

text \<open>
  What the test \<^verbatim>\<open>series.std() == 0\<close> means: at least two values are present and
  they are all equal.
\<close>

lemma sum_squares_zero:
  "(\<Sum>x \<leftarrow> xs. (x - m) ^ 2) = (0::rat) \<longleftrightarrow> (\<forall>x \<in> set xs. x = m)"
proof -
  have "(\<Sum>x \<leftarrow> xs. (x - m) ^ 2) = 0 \<longleftrightarrow> (\<forall>y \<in> set (map (\<lambda>x. (x - m) ^ 2) xs). y = 0)"
    by (intro sum_list_nonneg_eq_0_iff) auto
  then show ?thesis by auto
qed

lemma mean_constant:
  assumes "xs \<noteq> []" and "\<forall>x \<in> set xs. x = c"
  shows "mean xs = c"
proof -
  have "xs = replicate (length xs) c"
    using assms(2) by (simp add: replicate_length_same)
  then have "sum_list xs = of_nat (length xs) * c"
    by (metis sum_list_replicate)
  then show ?thesis
    using assms(1) by (simp add: mean_def)
qed

lemma std_is_zero_iff:
  "std_is_zero s \<longleftrightarrow> 2 \<le> length (dropna s) \<and> (\<forall>x \<in> set (dropna s). x = hd (dropna s))"
proof (cases "2 \<le> length (dropna s)")
  case False
  then show ?thesis
    by (simp add: std_is_zero_def var_def Let_def)
next
  case True
  let ?xs = "dropna s"
  have ne: "?xs \<noteq> []" using True by auto
  have "std_is_zero s \<longleftrightarrow> (\<Sum>x \<leftarrow> ?xs. (x - mean ?xs) ^ 2) = 0"
    using True by (auto simp: std_is_zero_def var_def Let_def)
  also have "\<dots> \<longleftrightarrow> (\<forall>x \<in> set ?xs. x = mean ?xs)"
    by (rule sum_squares_zero)
  also have "\<dots> \<longleftrightarrow> (\<forall>x \<in> set ?xs. x = hd ?xs)"
  proof
    assume a: "\<forall>x \<in> set ?xs. x = mean ?xs"
    then have "hd ?xs = mean ?xs" using ne by simp
    with a show "\<forall>x \<in> set ?xs. x = hd ?xs" by simp
  next
    assume a: "\<forall>x \<in> set ?xs. x = hd ?xs"
    from mean_constant[OF ne this] a show "\<forall>x \<in> set ?xs. x = mean ?xs" by simp
  qed
  finally show ?thesis using True by simp
qed

text \<open>
  With standard deviation zero every row gets the normalized value 0, also a row whose
  value is missing, and so the component score of the formula at 0.
\<close>

lemma zero_variance_components:
  assumes "std_is_zero s"
  shows "normalize_series s = map (\<lambda>v. Some 0) s"
    and "price_score s = map (\<lambda>v. Some 100) s"
    and "location_score s = map (\<lambda>v. Some 100) s"
    and "size_score s = map (\<lambda>v. Some 0) s"
  using assms
  by (simp_all add: normalize_series_def price_score_def location_score_def size_score_def
      inverted_def scaled_def)

text \<open>With fewer than two values present, every normalized value is NaN.\<close>

lemma dropna_mem: "x \<in> set (dropna s) \<longleftrightarrow> Some x \<in> set s"
  by (induction s rule: dropna.induct) auto

lemma normalize_few_values:
  assumes "length (dropna s) \<le> 1"
  shows "normalize_series s = map (\<lambda>v. None) s"
proof -
  have nz: "\<not> std_is_zero s"
    using assms by (simp add: std_is_zero_iff)
  have "nan_div (nan_sub v (series_min s)) (nan_sub (series_max s) (series_min s)) = None"
    for v
  proof (cases "dropna s")
    case Nil
    then show ?thesis by (simp add: series_min_def)
  next
    case (Cons x xs)
    then have "xs = []" using assms by simp
    then show ?thesis
      using Cons by (cases v) (simp_all add: series_min_def series_max_def)
  qed
  then show ?thesis
    using nz by (cases "s = []") (simp_all add: normalize_series_def)
qed

text \<open>\<open>normalize_series\<close> divides by zero only as 0 / 0: no infinity is left out of the model.\<close>

lemma normalize_zero_range:
  assumes "Some x \<in> set s" and "nan_sub (series_max s) (series_min s) = Some 0"
  shows "nan_sub (Some x) (series_min s) = Some 0"
proof -
  have x: "x \<in> set (dropna s)"
    using assms(1) by (simp add: dropna_mem)
  then have ne: "dropna s \<noteq> []" by auto
  have "Max (set (dropna s)) = Min (set (dropna s))"
    using assms(2) ne by (simp add: series_min_def series_max_def)
  moreover have "Min (set (dropna s)) \<le> x" "x \<le> Max (set (dropna s))"
    using x by simp_all
  ultimately have "x = Min (set (dropna s))"
    by linarith
  then show ?thesis
    using ne by (simp add: series_min_def)
qed

lemma normalize_nan:
  assumes "\<not> std_is_zero s" and "k < length s" and "s ! k = None"
  shows "normalize_series s ! k = None"
  using assms by (auto simp: normalize_series_def)

lemma inverted_nan: "k < length s \<Longrightarrow> s ! k = None \<Longrightarrow> inverted s ! k = None"
  by (simp add: inverted_def)

lemma scaled_nan: "k < length s \<Longrightarrow> s ! k = None \<Longrightarrow> scaled s ! k = None"
  by (simp add: scaled_def)

subsection \<open>The component scores\<close>

lemma in_set_update:
  "x \<in> set (AList.update k v al) \<Longrightarrow> x = (k, v) \<or> x \<in> set al"
  by (induction al) (auto split: if_splits)

lemma length_component_fns:
  "length (price_score s) = length s"
  "length (location_score s) = length s"
  "length (size_score s) = length s"
  "length (bedroom_score prefs s) = length s"
  "length (age_score s) = length s"
  by (simp_all add: price_score_def location_score_def size_score_def bedroom_score_def
      age_score_def inverted_def scaled_def length_normalize fillna_def Let_def)

lemma add_component_Inr:
  "(add_component df prefs col criterion name f sc = Inr sc') =
     (if col \<in> set (columns df) \<and> 0 < weight prefs criterion
      then \<exists>s. numeric_column df col = Inr s \<and> sc' = AList.update name (f s) sc
      else sc' = sc)"
  by (auto simp: add_component_def ebind_Inr)

lemma add_component_ok:
  assumes "\<forall>r \<in> set (rows df). \<not> is_text (cell_at (snd r) col)"
  shows "\<exists>sc'. add_component df prefs col criterion name f sc = Inr sc'"
proof (cases "col \<in> set (columns df) \<and> 0 < weight prefs criterion")
  case True
  then show ?thesis
    using numeric_column_ok[OF _ assms] by (simp add: add_component_def ebind_def)
next
  case False
  then show ?thesis
    by (auto simp: add_component_def)
qed

lemma add_component_sized:
  assumes "add_component df prefs col criterion name f sc = Inr sc'"
    and "\<forall>c \<in> set sc. length (snd c) = length (rows df)"
    and "\<And>s. length (f s) = length s"
  shows "\<forall>c \<in> set sc'. length (snd c) = length (rows df)"
proof (cases "col \<in> set (columns df) \<and> 0 < weight prefs criterion")
  case True
  then obtain s where s: "numeric_column df col = Inr s" "sc' = AList.update name (f s) sc"
    using assms(1) by (auto simp: add_component_Inr)
  have "length s = length (rows df)"
    using s(1) by (simp add: numeric_column_Inr)
  then show ?thesis
    using s(2) assms(2,3) by (auto dest!: in_set_update)
next
  case False
  then show ?thesis using assms(1,2) by (simp add: add_component_Inr)
qed

lemma component_scores_sized:
  assumes "component_scores df prefs = Inr sc"
  shows "\<forall>c \<in> set sc. length (snd c) = length (rows df)"
proof -
  from assms obtain s1 s2 s3 s4 where
    1: "add_component df prefs ''price'' ''price'' ''price_score'' price_score [] = Inr s1" and
    2: "add_component df prefs ''distance_to_downtown'' ''location'' ''location_score''
          location_score s1 = Inr s2" and
    3: "add_component df prefs ''sqft'' ''size'' ''size_score'' size_score s2 = Inr s3" and
    4: "add_component df prefs ''beds'' ''bedrooms'' ''bedroom_score'' (bedroom_score prefs) s3
          = Inr s4" and
    5: "add_component df prefs ''year_built'' ''age'' ''age_score'' age_score s4 = Inr sc"
    unfolding component_scores_def ebind_Inr by blast
  have "\<forall>c \<in> set s1. length (snd c) = length (rows df)"
    by (rule add_component_sized[OF 1]) (simp_all add: length_component_fns)
  then have "\<forall>c \<in> set s2. length (snd c) = length (rows df)"
    by (rule add_component_sized[OF 2]) (simp_all add: length_component_fns)
  then have "\<forall>c \<in> set s3. length (snd c) = length (rows df)"
    by (rule add_component_sized[OF 3]) (simp_all add: length_component_fns)
  then have "\<forall>c \<in> set s4. length (snd c) = length (rows df)"
    by (rule add_component_sized[OF 4]) (simp_all add: length_component_fns)
  then show ?thesis
    by (rule add_component_sized[OF 5]) (simp_all add: length_component_fns)
qed

lemma add_component_lookup:
  assumes "add_component df prefs col criterion name f sc = Inr sc'"
  shows "map_of sc' = (if col \<in> set (columns df) \<and> 0 < weight prefs criterion
                       then (map_of sc)(name \<mapsto> f (column df col)) else map_of sc)"
  using assms
  by (auto simp: add_component_Inr numeric_column_Inr update_conv' column_def split: if_splits)

lemma component_scores_lookup:
  assumes "component_scores df prefs = Inr sc"
  shows "map_of sc ''price_score'' =
           (if ''price'' \<in> set (columns df) \<and> 0 < weight prefs ''price''
            then Some (price_score (column df ''price'')) else None)"
    and "map_of sc ''location_score'' =
           (if ''distance_to_downtown'' \<in> set (columns df) \<and> 0 < weight prefs ''location''
            then Some (location_score (column df ''distance_to_downtown'')) else None)"
    and "map_of sc ''size_score'' =
           (if ''sqft'' \<in> set (columns df) \<and> 0 < weight prefs ''size''
            then Some (size_score (column df ''sqft'')) else None)"
    and "map_of sc ''bedroom_score'' =
           (if ''beds'' \<in> set (columns df) \<and> 0 < weight prefs ''bedrooms''
            then Some (bedroom_score prefs (column df ''beds'')) else None)"
    and "map_of sc ''age_score'' =
           (if ''year_built'' \<in> set (columns df) \<and> 0 < weight prefs ''age''
            then Some (age_score (column df ''year_built'')) else None)"
proof -
  from assms obtain s1 s2 s3 s4 where
    1: "add_component df prefs ''price'' ''price'' ''price_score'' price_score [] = Inr s1" and
    2: "add_component df prefs ''distance_to_downtown'' ''location'' ''location_score''
          location_score s1 = Inr s2" and
    3: "add_component df prefs ''sqft'' ''size'' ''size_score'' size_score s2 = Inr s3" and
    4: "add_component df prefs ''beds'' ''bedrooms'' ''bedroom_score'' (bedroom_score prefs) s3
          = Inr s4" and
    5: "add_component df prefs ''year_built'' ''age'' ''age_score'' age_score s4 = Inr sc"
    unfolding component_scores_def ebind_Inr by blast
  note l = add_component_lookup[OF 1] add_component_lookup[OF 2] add_component_lookup[OF 3]
    add_component_lookup[OF 4] add_component_lookup[OF 5]
  show "map_of sc ''price_score'' =
           (if ''price'' \<in> set (columns df) \<and> 0 < weight prefs ''price''
            then Some (price_score (column df ''price'')) else None)"
    by (simp add: l)
  show "map_of sc ''location_score'' =
           (if ''distance_to_downtown'' \<in> set (columns df) \<and> 0 < weight prefs ''location''
            then Some (location_score (column df ''distance_to_downtown'')) else None)"
    by (simp add: l)
  show "map_of sc ''size_score'' =
           (if ''sqft'' \<in> set (columns df) \<and> 0 < weight prefs ''size''
            then Some (size_score (column df ''sqft'')) else None)"
    by (simp add: l)
  show "map_of sc ''bedroom_score'' =
           (if ''beds'' \<in> set (columns df) \<and> 0 < weight prefs ''bedrooms''
            then Some (bedroom_score prefs (column df ''beds'')) else None)"
    by (simp add: l)
  show "map_of sc ''age_score'' =
           (if ''year_built'' \<in> set (columns df) \<and> 0 < weight prefs ''age''
            then Some (age_score (column df ''year_built'')) else None)"
    by (simp add: l)
qed

lemma add_component_names:
  assumes "add_component df prefs col criterion name f sc = Inr sc'"
  shows "fst ` set sc' \<subseteq> insert name (fst ` set sc)"
    and "distinct (map fst sc) \<Longrightarrow> distinct (map fst sc')"
    and "\<not> 0 < weight prefs criterion \<Longrightarrow> sc' = sc"
proof -
  show "fst ` set sc' \<subseteq> insert name (fst ` set sc)"
  proof (cases "col \<in> set (columns df) \<and> 0 < weight prefs criterion")
    case True
    then obtain s where "sc' = AList.update name (f s) sc"
      using assms by (auto simp: add_component_Inr)
    then show ?thesis
      by (simp only: dom_update) auto
  next
    case False
    then show ?thesis
      using assms by (auto simp: add_component_Inr)
  qed
  show "distinct (map fst sc')" if "distinct (map fst sc)"
    using assms that by (auto simp: add_component_Inr distinct_update split: if_splits)
  show "sc' = sc" if "\<not> 0 < weight prefs criterion"
    using assms that by (simp add: add_component_Inr)
qed

lemma component_scores_names:
  assumes "component_scores df prefs = Inr sc"
  shows "distinct (map fst sc)"
    and "\<not> 0 < weight prefs ''bedrooms'' \<Longrightarrow>
      fst ` set sc \<subseteq> {''price_score'', ''location_score'', ''size_score'', ''age_score''}"
proof -
  from assms obtain s1 s2 s3 s4 where
    1: "add_component df prefs ''price'' ''price'' ''price_score'' price_score [] = Inr s1" and
    2: "add_component df prefs ''distance_to_downtown'' ''location'' ''location_score''
          location_score s1 = Inr s2" and
    3: "add_component df prefs ''sqft'' ''size'' ''size_score'' size_score s2 = Inr s3" and
    4: "add_component df prefs ''beds'' ''bedrooms'' ''bedroom_score'' (bedroom_score prefs) s3
          = Inr s4" and
    5: "add_component df prefs ''year_built'' ''age'' ''age_score'' age_score s4 = Inr sc"
    unfolding component_scores_def ebind_Inr by blast
  have "distinct (map fst s1)"
    using add_component_names(2)[OF 1] by simp
  then have "distinct (map fst s2)"
    by (rule add_component_names(2)[OF 2])
  then have "distinct (map fst s3)"
    by (rule add_component_names(2)[OF 3])
  then have "distinct (map fst s4)"
    by (rule add_component_names(2)[OF 4])
  then show "distinct (map fst sc)"
    by (rule add_component_names(2)[OF 5])
  assume off: "\<not> 0 < weight prefs ''bedrooms''"
  have n1: "fst ` set s1 \<subseteq> {''price_score''}"
    using add_component_names(1)[OF 1] by simp
  have n2: "fst ` set s2 \<subseteq> {''price_score'', ''location_score''}"
    using add_component_names(1)[OF 2] n1 by auto
  have n3: "fst ` set s3 \<subseteq> {''price_score'', ''location_score'', ''size_score''}"
    using add_component_names(1)[OF 3] n2 by auto
  have "s4 = s3"
    using add_component_names(3)[OF 4 off] .
  then show "fst ` set sc \<subseteq> {''price_score'', ''location_score'', ''size_score'', ''age_score''}"
    using add_component_names(1)[OF 5] n3 by auto
qed

lemma bedroom_score_numbers:
  "bedroom_score prefs (map Some bs) =
     map (map_option (\<lambda>n. 100 * (1 - n)))
       (normalize_series (map (\<lambda>b. Some \<bar>b - (case min_beds prefs of None \<Rightarrow> 3 | Some m \<Rightarrow> m)\<bar>) bs))"
proof -
  have "(\<lambda>n::rat. 100 - n * 100) = (\<lambda>n. 100 * (1 - n))"
    by (rule ext) (simp add: algebra_simps)
  then show ?thesis
    by (simp add: bedroom_score_def inverted_def get_or_def comp_def)
qed

lemma age_score_fillna:
  "age_score s = inverted (normalize_series
     (map (\<lambda>v. Some (2024 - (case v of None \<Rightarrow> 1900 | Some y \<Rightarrow> y))) s))"
  by (simp add: age_score_def fillna_def comp_def)

subsection \<open>The weighted sum\<close>

lemma length_add_weighted:
  "length (add_weighted prefs c acc) = min (length acc) (length (snd c))"
  by (simp add: add_weighted_def)

lemma fold_add_weighted:
  assumes "\<forall>c \<in> set sc. length (snd c) = length acc"
  shows "length (fold (add_weighted prefs) sc acc) = length acc
    \<and> (\<forall>k < length acc. fold (add_weighted prefs) sc acc ! k = acc ! k + loop_total prefs sc k)"
  using assms
proof (induction sc arbitrary: acc)
  case Nil
  then show ?case by (simp add: loop_total_def)
next
  case (Cons c sc)
  let ?acc = "add_weighted prefs c acc"
  have len: "length ?acc = length acc"
    using Cons.prems by (simp add: length_add_weighted)
  have "\<forall>c \<in> set sc. length (snd c) = length ?acc"
    using Cons.prems len by simp
  from Cons.IH[OF this] len
  have ih: "length (fold (add_weighted prefs) sc ?acc) = length acc"
    "\<forall>k < length acc. fold (add_weighted prefs) sc ?acc ! k = ?acc ! k + loop_total prefs sc k"
    by simp_all
  have step: "\<forall>k < length acc.
      ?acc ! k = acc ! k + get_or 50 (snd c ! k) * weight prefs (weight_key (fst c))"
    using Cons.prems by (simp add: add_weighted_def)
  show ?case
    using ih step by (simp add: loop_total_def)
qed

lemma final_scores_nth:
  assumes "\<forall>c \<in> set sc. length (snd c) = n"
  shows "length (final_scores prefs sc n) = n"
    and "k < n \<Longrightarrow> final_scores prefs sc n ! k = loop_total prefs sc k"
  using fold_add_weighted[of sc "replicate n 0" prefs] assms
  by (simp_all add: final_scores_def)

text \<open>The key under which the loop looks a column's weight up.\<close>

lemma weight_key_components:
  "weight_key ''price_score'' = ''price''"
  "weight_key ''location_score'' = ''location''"
  "weight_key ''size_score'' = ''size''"
  "weight_key ''bedroom_score'' = ''bedroom''"
  "weight_key ''age_score'' = ''age''"
  by code_simp+



text \<open>One column's share of a row's total.\<close>

lemma loop_total_delete:
  assumes "distinct (map fst sc)" and "map_of sc name = Some s"
  shows "loop_total prefs sc k
    = loop_total prefs (AList.delete name sc) k + get_or 50 (s ! k) * weight prefs (weight_key name)"
  using assms
proof (induction sc)
  case Nil
  then show ?case by simp
next
  case (Cons c sc)
  show ?case
  proof (cases "fst c = name")
    case True
    then have "s = snd c" and "name \<notin> fst ` set sc"
      using Cons.prems by auto
    then show ?thesis
      using True by (simp add: loop_total_def)
  next
    case False
    then have "distinct (map fst sc)" and "map_of sc name = Some s"
      using Cons.prems by (auto split: if_splits)
    from Cons.IH[OF this] False show ?thesis
      by (simp add: loop_total_def)
  qed
qed

lemma final_scores_delete:
  assumes "distinct (map fst sc)" and "\<forall>c \<in> set sc. length (snd c) = n"
    and "map_of sc name = Some s" and "k < n"
  shows "final_scores prefs sc n ! k
    = final_scores prefs (AList.delete name sc) n ! k
      + get_or 50 (s ! k) * weight prefs (weight_key name)"
proof -
  have "\<forall>c \<in> set (AList.delete name sc). length (snd c) = n"
    using assms(2) by (auto simp: AList.delete_eq)
  then have "final_scores prefs (AList.delete name sc) n ! k
      = loop_total prefs (AList.delete name sc) k"
    using assms(4) by (simp add: final_scores_nth)
  moreover have "final_scores prefs sc n ! k = loop_total prefs sc k"
    using assms(2,4) by (simp add: final_scores_nth)
  ultimately show ?thesis
    using loop_total_delete[OF assms(1,3)] by simp
qed

lemma component_used_in_total:
  assumes "distinct (map fst sc)" and "\<forall>c \<in> set sc. length (snd c) = n" and "k < n"
    and "component_used sc name k = Some v"
  shows "final_scores prefs sc n ! k
    = final_scores prefs (AList.delete name sc) n ! k + v * weight prefs (weight_key name)"
proof -
  from assms(4) obtain s where "map_of sc name = Some s" "v = get_or 50 (s ! k)"
    by (auto simp: component_used_def)
  then show ?thesis
    using final_scores_delete[OF assms(1,2) _ assms(3)] by simp
qed

subsection \<open>The dense rank\<close>

lemma dense_rank_card: "dense_rank S s = Suc (card {t \<in> set S. s < t})"
  by (simp add: dense_rank_def length_remdups_card_conv)

lemma dense_rank_antimono: "s \<le> s' \<Longrightarrow> dense_rank S s' \<le> dense_rank S s"
proof -
  assume le: "s \<le> s'"
  have "{t \<in> set S. s' < t} \<subseteq> {t \<in> set S. s < t}"
    using le by auto
  then have "card {t \<in> set S. s' < t} \<le> card {t \<in> set S. s < t}"
    by (intro card_mono) auto
  then show ?thesis
    by (simp add: dense_rank_card)
qed

lemma dense_rank_strict:
  assumes "s < s'" and "s' \<in> set S"
  shows "dense_rank S s' < dense_rank S s"
proof -
  have "{t \<in> set S. s' < t} \<subset> {t \<in> set S. s < t}"
    using assms by auto
  then have "card {t \<in> set S. s' < t} < card {t \<in> set S. s < t}"
    by (intro psubset_card_mono) auto
  then show ?thesis
    by (simp add: dense_rank_card)
qed

lemma dense_rank_one: "dense_rank S s = 1 \<longleftrightarrow> (\<forall>t \<in> set S. t \<le> s)"
proof -
  have "dense_rank S s = 1 \<longleftrightarrow> {t \<in> set S. s < t} = {}"
    by (simp add: dense_rank_card)
  then show ?thesis
    by (auto simp: not_less)
qed

lemma dense_rank_pred:
  assumes "1 < dense_rank S s"
  shows "\<exists>t \<in> set S. s < t \<and> dense_rank S t = dense_rank S s - 1"
proof -
  let ?A = "{t \<in> set S. s < t}"
  have fin: "finite ?A" by simp
  have ne: "?A \<noteq> {}"
  proof
    assume "?A = {}"
    then have "dense_rank S s = 1" by (simp add: dense_rank_card)
    with assms show False by simp
  qed
  define t where "t = Min ?A"
  have tA: "t \<in> ?A"
    unfolding t_def using fin ne by (rule Min_in)
  have "{u \<in> set S. t < u} = ?A - {t}"
  proof (rule set_eqI)
    fix u
    show "u \<in> {u \<in> set S. t < u} \<longleftrightarrow> u \<in> ?A - {t}"
    proof
      assume "u \<in> {u \<in> set S. t < u}"
      then show "u \<in> ?A - {t}" using tA by auto
    next
      assume u: "u \<in> ?A - {t}"
      then have "t \<le> u" unfolding t_def using fin by (intro Min_le) auto
      with u show "u \<in> {u \<in> set S. t < u}" by auto
    qed
  qed
  then have "card {u \<in> set S. t < u} = card ?A - 1"
    using tA fin by (simp only: card_Diff_singleton)
  then have "dense_rank S t = dense_rank S s - 1"
    using ne fin by (simp add: dense_rank_card card_gt_0_iff Suc_diff_le Suc_le_eq)
  with tA show ?thesis by auto
qed

lemma dense_rank_next:
  assumes "s' < s" and "s \<in> set S" and "\<forall>t \<in> set S. \<not> (s' < t \<and> t < s)"
  shows "dense_rank S s' = dense_rank S s + 1"
proof -
  have "{t \<in> set S. s' < t} = insert s {t \<in> set S. s < t}"
    using assms by (auto simp: not_less)
  moreover have "s \<notin> {t \<in> set S. s < t}" and "finite {t \<in> set S. s < t}"
    by simp_all
  ultimately have "card {t \<in> set S. s' < t} = Suc (card {t \<in> set S. s < t})"
    by (metis card_insert_disjoint)
  then show ?thesis
    by (simp add: dense_rank_card)
qed

subsection \<open>Scoring, ranking and sorting the frame\<close>

lemma zip_map_zip_map:
  "length xs = length ys \<Longrightarrow>
     map h (zip (map f (zip xs (map a ys))) (map b ys))
       = map (\<lambda>(x, y). h (f (x, a y), b y)) (zip xs ys)"
  by (induction xs ys rule: list_induct2) auto

lemma rank_and_sort_rows:
  assumes "length final = length (rows df)"
  shows "rows (rank_and_sort df final)
    = sort_key (\<lambda>r. - sort_key_of ''score'' r) (map (with_score final) (zip (rows df) final))"
proof -
  have "map (\<lambda>(r, v). (fst r, AList.update ''rank'' v (snd r)))
          (zip (map (\<lambda>(r, v). (fst r, AList.update ''score'' v (snd r)))
                  (zip (rows df) (map Num (map round2 final))))
             (map (\<lambda>s. Num (of_nat (dense_rank (map round2 final) s))) (map round2 final)))
        = map (with_score final) (zip (rows df) final)"
    using assms
    by (simp add: zip_map_zip_map[where a = "\<lambda>x. Num (round2 x)", simplified] comp_def
        with_score_def case_prod_unfold zip_map_zip_map)
  then show ?thesis
    by (simp add: rank_and_sort_def set_column_def sort_values_desc_def Let_def)
qed

lemma cell_at_with_score:
  "cell_at (snd (with_score F (row, x))) ''score'' = Num (round2 x)"
  "cell_at (snd (with_score F (row, x))) ''rank''
     = Num (of_nat (dense_rank (map round2 F) (round2 x)))"
  by (simp_all add: with_score_def cell_at_def update_conv')

lemma map_of_with_score:
  "map_of (snd (with_score F (row, x))) ''score'' = Some (Num (round2 x))"
  "map_of (snd (with_score F (row, x))) ''rank''
     = Some (Num (of_nat (dense_rank (map round2 F) (round2 x))))"
  "c \<noteq> ''score'' \<Longrightarrow> c \<noteq> ''rank'' \<Longrightarrow>
     map_of (snd (with_score F (row, x))) c = map_of (snd row) c"
  by (simp_all add: with_score_def update_conv')

lemma score_of_with_score: "score_of (snd (with_score F (row, x))) = round2 x"
  by (simp add: score_of_def cell_at_with_score)

lemma rank_of_with_score:
  "rank_of (snd (with_score F (row, x))) = dense_rank (map round2 F) (round2 x)"
  by (simp add: rank_of_def cell_at_with_score)

lemma sort_key_of_score: "sort_key_of ''score'' e = score_of (snd e)"
  by (simp add: sort_key_of_def score_of_def)

lemma scored_row_with_score:
  "k < length (rows df) \<Longrightarrow> length totals = length (rows df) \<Longrightarrow>
     snd (with_score totals (zip (rows df) totals ! k)) = scored_row df totals k"
  by (simp add: with_score_def scored_row_def)


lemma scored_rows_eq:
  assumes "length totals = length (rows df)"
  shows "map snd (map (with_score totals) (zip (rows df) totals))
    = map (scored_row df totals) [0 ..< length (rows df)]"
proof (rule nth_equalityI)
  show "length (map snd (map (with_score totals) (zip (rows df) totals)))
      = length (map (scored_row df totals) [0 ..< length (rows df)])"
    using assms by simp
next
  fix k
  assume "k < length (map snd (map (with_score totals) (zip (rows df) totals)))"
  then have k: "k < length (rows df)"
    using assms by simp
  then show "map snd (map (with_score totals) (zip (rows df) totals)) ! k
      = map (scored_row df totals) [0 ..< length (rows df)] ! k"
    using assms scored_row_with_score[OF k assms] by simp
qed

lemma distinct_index_sort_key:
  "distinct (map fst xs) \<Longrightarrow> distinct (map fst (sort_key f xs))"
proof -
  assume d: "distinct (map fst xs)"
  have "mset (map fst (sort_key f xs)) = mset (map fst xs)"
    by simp
  then show ?thesis
    using d by (metis mset_eq_imp_distinct_iff)
qed

subsection \<open>The runs of the scorer\<close>

text \<open>The shape of every successful run.\<close>

lemma score_listings_Inr:
  assumes "score_listings ls prefs = Inr out"
  shows "out = [] \<or>
    (\<exists>df sc. hard_filter (DataFrame ls) prefs = Inr df \<and> rows df \<noteq> []
       \<and> component_scores df prefs = Inr sc
       \<and> out = map snd (sort_key (\<lambda>r. - sort_key_of ''score'' r)
                 (map (with_score (map (loop_total prefs sc) [0 ..< length (rows df)]))
                    (zip (rows df) (map (loop_total prefs sc) [0 ..< length (rows df)])))))"
proof (cases "out = []")
  case True
  then show ?thesis by simp
next
  case False
  with assms obtain df sc where
    df: "hard_filter (DataFrame ls) prefs = Inr df" and ne: "\<not> empty_frame df" and
    sc: "component_scores df prefs = Inr sc" and
    out: "out = to_dict (rank_and_sort df (final_scores prefs sc (length (rows df))))"
    by (auto simp: score_listings_def ebind_Inr split: if_splits)
  let ?n = "length (rows df)"
  have sized: "\<forall>c \<in> set sc. length (snd c) = ?n"
    using sc by (rule component_scores_sized)
  have "final_scores prefs sc ?n = map (loop_total prefs sc) [0 ..< ?n]"
    using final_scores_nth[OF sized] by (intro nth_equalityI) simp_all
  moreover have "length (final_scores prefs sc ?n) = ?n"
    using final_scores_nth(1)[OF sized] .
  ultimately show ?thesis
    using df ne sc out rank_and_sort_rows[of "final_scores prefs sc ?n" df]
    by (auto simp: to_dict_def empty_frame_def)
qed

text \<open>A run that returns a non-empty list went through the filter and the components.\<close>

lemma score_listings_frames:
  assumes "score_listings ls prefs = Inr out" and "out \<noteq> []"
  obtains df sc where "hard_filter (DataFrame ls) prefs = Inr df" "rows df \<noteq> []"
    "component_scores df prefs = Inr sc"
  using score_listings_Inr[OF assms(1)] assms(2) by blast

lemma scored_facts:
  assumes "score_listings ls prefs = Inr out"
  shows "\<exists>S. set S = score_of ` set out
    \<and> (\<forall>r \<in> set out. map_of r ''score'' = Some (Num (score_of r))
          \<and> map_of r ''rank'' = Some (Num (of_nat (rank_of r)))
          \<and> rank_of r = dense_rank S (score_of r))
    \<and> sorted (map (\<lambda>r. - score_of r) out)"
proof (cases "out = []")
  case True
  then show ?thesis by (intro exI[of _ "[]"]) simp
next
  case False
  with score_listings_Inr[OF assms] obtain df :: data_frame and sc where
    out: "out = map snd (sort_key (\<lambda>r. - sort_key_of ''score'' r)
                 (map (with_score (map (loop_total prefs sc) [0 ..< length (rows df)]))
                    (zip (rows df) (map (loop_total prefs sc) [0 ..< length (rows df)]))))"
    by blast
  define F where "F = map (loop_total prefs sc) [0 ..< length (rows df)]"
  define Z where "Z = zip (rows df) F"
  define R where "R = sort_key (\<lambda>r. - sort_key_of ''score'' r) (map (with_score F) Z)"
  have out': "out = map snd R"
    using out by (simp add: R_def Z_def F_def)
  have lenF: "length F = length (rows df)"
    by (simp add: F_def)
  have setR: "set R = with_score F ` set Z"
    by (simp add: R_def)
  have sndZ: "snd ` set Z = set F"
    using lenF by (metis Z_def map_snd_zip set_map)
  have "score_of ` set out = (\<lambda>z. round2 (snd z)) ` set Z"
    unfolding out' set_map setR image_image
    by (intro image_cong refl) (simp add: score_of_with_score split_paired_all)
  also have "\<dots> = round2 ` set F"
    using sndZ by (metis image_image)
  finally have S: "set (map round2 F) = score_of ` set out"
    by simp
  have fields: "map_of r ''score'' = Some (Num (score_of r))
          \<and> map_of r ''rank'' = Some (Num (of_nat (rank_of r)))
          \<and> rank_of r = dense_rank (map round2 F) (score_of r)" if "r \<in> set out" for r
  proof -
    from that obtain row x where "r = snd (with_score F (row, x))"
      unfolding out' set_map setR by auto
    then show ?thesis
      by (simp add: map_of_with_score score_of_with_score rank_of_with_score)
  qed
  have "map (\<lambda>r. - score_of r) out = map (\<lambda>r. - sort_key_of ''score'' r) R"
    by (simp add: out' sort_key_of_score comp_def)
  then have "sorted (map (\<lambda>r. - score_of r) out)"
    by (simp add: R_def)
  with S fields show ?thesis
    by (intro exI[of _ "map round2 F"]) blast
qed

lemma score_listings_source:
  assumes "score_listings ls prefs = Inr out"
  shows "\<exists>idx. length idx = length out \<and> distinct idx \<and>
    (\<forall>k < length out. idx ! k < length ls
       \<and> {''price'', ''beds'', ''baths''} \<subseteq> set (all_keys ls)
       \<and> passes prefs (as_row ls (ls ! (idx ! k)))
       \<and> (\<exists>s n. out ! k = AList.update ''rank'' (Num n)
                   (AList.update ''score'' (Num s) (as_row ls (ls ! (idx ! k))))))"
proof (cases "out = []")
  case True
  then show ?thesis by (intro exI[of _ "[]"]) simp
next
  case False
  with score_listings_Inr[OF assms] obtain df :: data_frame and sc where
    df: "hard_filter (DataFrame ls) prefs = Inr df" and
    out: "out = map snd (sort_key (\<lambda>r. - sort_key_of ''score'' r)
                 (map (with_score (map (loop_total prefs sc) [0 ..< length (rows df)]))
                    (zip (rows df) (map (loop_total prefs sc) [0 ..< length (rows df)]))))"
    by blast
  define F where "F = map (loop_total prefs sc) [0 ..< length (rows df)]"
  define Z where "Z = zip (rows df) F"
  define R where "R = sort_key (\<lambda>r. - sort_key_of ''score'' r) (map (with_score F) Z)"
  have out': "out = map snd R"
    using out by (simp add: R_def Z_def F_def)
  have lenF: "length F = length (rows df)"
    by (simp add: F_def)
  have rows: "rows df = filter (\<lambda>r. passes prefs (snd r)) (rows (DataFrame ls))"
    using hard_filter_Inr(2)[OF df] .
  have keys: "{''price'', ''beds'', ''baths''} \<subseteq> set (all_keys ls)"
    using hard_filter_Inr(3-5)[OF df] by (simp add: DataFrame_eq)
  have "map fst (map (with_score F) Z) = map fst (map fst Z)"
    by (simp add: with_score_def)
  also have "map fst Z = rows df"
    using lenF by (simp add: Z_def)
  finally have "map fst (map (with_score F) Z) = map fst (rows df)" .
  moreover have "distinct (map fst (rows df))"
    unfolding rows using index_DataFrame[of ls] by (simp add: distinct_map_filter)
  ultimately have dist: "distinct (map fst R)"
    unfolding R_def by (intro distinct_index_sort_key) simp
  have each: "fst (R ! k) < length ls
       \<and> passes prefs (as_row ls (ls ! fst (R ! k)))
       \<and> (\<exists>s n. snd (R ! k) = AList.update ''rank'' (Num n)
                   (AList.update ''score'' (Num s) (as_row ls (ls ! fst (R ! k)))))"
    if "k < length R" for k
  proof -
    have "R ! k \<in> set R"
      using that by (rule nth_mem)
    also have "set R = with_score F ` set Z"
      by (simp add: R_def)
    finally have "R ! k \<in> with_score F ` set Z" .
    then obtain row x where rx: "R ! k = with_score F (row, x)" and "(row, x) \<in> set Z"
      by auto
    then have "row \<in> set (rows df)"
      unfolding Z_def by (meson set_zip_leftD)
    then have "row \<in> set (rows (DataFrame ls))" and p: "passes prefs (snd row)"
      unfolding rows by simp_all
    then have "fst row < length ls \<and> snd row = as_row ls (ls ! fst row)"
      using in_rows_DataFrame[of "fst row" "snd row" ls] by simp
    with p rx show ?thesis
      by (auto simp: with_score_def)
  qed
  show ?thesis
    using dist each keys by (intro exI[of _ "map fst R"]) (simp add: out')
qed

text \<open>
  When it returns and what: the empty input gives the empty list; when each of price,
  beds and baths is a key of some listing and the fields are numbers, null or absent, the
  call returns, and returns the empty list if no listing passes the filter.
\<close>

lemma score_listings_empty: "score_listings [] prefs = Inr []"
  by (simp add: score_listings_def)

lemma score_listings_none_pass:
  assumes "{''price'', ''beds'', ''baths''} \<subseteq> (\<Union>l \<in> set ls. fst ` set l)"
    and "\<forall>l \<in> set ls. numeric_fields l"
    and "\<forall>l \<in> set ls. \<not> passes prefs l"
  shows "score_listings ls prefs = Inr []"
proof -
  have "\<not> passes prefs (snd r)" if "r \<in> set (rows (DataFrame ls))" for r
  proof -
    from that have i: "fst r < length ls" "snd r = as_row ls (ls ! fst r)"
      using in_rows_DataFrame[of "fst r" "snd r" ls] by simp_all
    have "passes prefs (snd r) = passes prefs (ls ! fst r)"
      using assms(1) by (simp add: i(2) passes_def cell_at_as_row to_float_frame_cell is_text_frame_cell frame_cell_number set_all_keys)
    then show ?thesis
      using assms(3) i(1) by simp
  qed
  then have "filter (\<lambda>r. passes prefs (snd r)) (rows (DataFrame ls)) = []"
    by (simp add: filter_empty_conv)
  then show ?thesis
    by (simp add: score_listings_def hard_filter_ok[OF assms(1,2)] ebind_def empty_frame_def)
qed

lemma score_listings_total:
  assumes keys: "{''price'', ''beds'', ''baths''} \<subseteq> (\<Union>l \<in> set ls. fst ` set l)"
    and wf: "\<forall>l \<in> set ls. numeric_fields l"
  shows "\<exists>out. score_listings ls prefs = Inr out"
proof -
  define df where
    "df = (DataFrame ls)\<lparr>rows := filter (\<lambda>r. passes prefs (snd r)) (rows (DataFrame ls))\<rparr>"
  have hf: "hard_filter (DataFrame ls) prefs = Inr df"
    unfolding df_def by (rule hard_filter_ok[OF keys wf])
  have nt: "\<forall>r \<in> set (rows df). \<not> is_text (cell_at (snd r) c)"
    if "c \<in> {''price'', ''beds'', ''distance_to_downtown'', ''sqft'', ''year_built''}" for c
  proof
    fix r assume "r \<in> set (rows df)"
    then have r: "r \<in> set (rows (DataFrame ls))"
      by (simp add: df_def)
    then have i: "fst r < length ls" "snd r = as_row ls (ls ! fst r)"
      using in_rows_DataFrame[of "fst r" "snd r" ls] by simp_all
    have "numeric_fields (ls ! fst r)"
      using wf i(1) by simp
    then show "\<not> is_text (cell_at (snd r) c)"
      using that by (auto simp: i(2) cell_at_as_row to_float_frame_cell is_text_frame_cell frame_cell_number numeric_fields_def)
  qed
  obtain s1 where 1: "add_component df prefs ''price'' ''price'' ''price_score'' price_score []
      = Inr s1"
    using add_component_ok[OF nt] by blast
  obtain s2 where 2: "add_component df prefs ''distance_to_downtown'' ''location''
      ''location_score'' location_score s1 = Inr s2"
    using add_component_ok[OF nt] by blast
  obtain s3 where 3: "add_component df prefs ''sqft'' ''size'' ''size_score'' size_score s2
      = Inr s3"
    using add_component_ok[OF nt] by blast
  obtain s4 where 4: "add_component df prefs ''beds'' ''bedrooms'' ''bedroom_score''
      (bedroom_score prefs) s3 = Inr s4"
    using add_component_ok[OF nt] by blast
  obtain s5 where 5: "add_component df prefs ''year_built'' ''age'' ''age_score'' age_score s4
      = Inr s5"
    using add_component_ok[OF nt] by blast
  have "component_scores df prefs = Inr s5"
    by (simp add: component_scores_def ebind_def 1 2 3 4 5)
  then show ?thesis
    using hf by (simp add: score_listings_def ebind_def)
qed

text \<open>
  A run with a non-empty result: the output is a rearrangement of the filtered rows, each
  with the score and the rank that lines 90 and 91 make of the accumulator.
\<close>

lemma score_listings_scored:
  assumes "score_listings ls prefs = Inr out" and "out \<noteq> []"
  shows "\<exists>df sc. hard_filter (DataFrame ls) prefs = Inr df
    \<and> component_scores df prefs = Inr sc
    \<and> final_scores prefs sc (length (rows df))
        = map (loop_total prefs sc) [0 ..< length (rows df)]
    \<and> mset out = mset (map (scored_row df (final_scores prefs sc (length (rows df))))
                          [0 ..< length (rows df)])"
proof -
  from score_listings_Inr[OF assms(1)] assms(2) obtain df :: data_frame and sc where
    df: "hard_filter (DataFrame ls) prefs = Inr df" and
    sc: "component_scores df prefs = Inr sc" and
    out: "out = map snd (sort_key (\<lambda>r. - sort_key_of ''score'' r)
                 (map (with_score (map (loop_total prefs sc) [0 ..< length (rows df)]))
                    (zip (rows df) (map (loop_total prefs sc) [0 ..< length (rows df)]))))"
    by blast
  define n where "n = length (rows df)"
  define totals where "totals = map (loop_total prefs sc) [0 ..< n]"
  have len: "length totals = length (rows df)"
    by (simp add: totals_def n_def)
  have sized: "\<forall>c \<in> set sc. length (snd c) = n"
    unfolding n_def using sc by (rule component_scores_sized)
  have fin: "final_scores prefs sc n = totals"
    unfolding totals_def using final_scores_nth[OF sized] by (intro nth_equalityI) simp_all
  have "mset out = image_mset snd (mset (map (with_score totals) (zip (rows df) totals)))"
    unfolding out totals_def n_def by (simp only: mset_map mset_sort)
  also have "\<dots> = mset (map snd (map (with_score totals) (zip (rows df) totals)))"
    by (simp only: mset_map)
  also have "\<dots> = mset (map (scored_row df totals) [0 ..< n])"
    unfolding n_def by (simp only: scored_rows_eq[OF len])
  finally have "mset out = mset (map (scored_row df totals) [0 ..< n])" .
  then show ?thesis
    using df sc fin unfolding n_def totals_def by auto
qed

text \<open>A single listing that passes gets rank 1.\<close>

lemma single_listing_rank_one:
  assumes "score_listings [l] prefs = Inr out"
  shows "\<forall>r \<in> set out. rank_of r = 1"
proof
  fix r assume r: "r \<in> set out"
  from score_listings_source[OF assms] obtain idx where
    len: "length idx = length out" and dist: "distinct idx" and
    lt: "\<forall>k < length out. idx ! k < length [l]"
    by blast
  have "set idx \<subseteq> {0}"
    using lt len by (auto simp: in_set_conv_nth)
  then have "card (set idx) \<le> 1"
    by (metis card_mono finite.emptyI finite.insertI card.empty card_insert_disjoint
        One_nat_def empty_iff)
  then have "length out \<le> 1"
    using dist len by (simp add: distinct_card)
  then have out: "out = [r]"
    using r by (cases out) auto
  from scored_facts[OF assms] obtain S where
    S: "set S = score_of ` set out" and
    rank: "rank_of r = dense_rank S (score_of r)"
    using r by blast
  have "\<forall>t \<in> set S. t \<le> score_of r"
    using S out by simp
  then show "rank_of r = 1"
    using rank dense_rank_one[of S "score_of r"] by simp
qed

subsection \<open>The call on the store\<close>

lemma store_component_eq:
  assumes "st ! df = PyFrame f" and "st ! scores = PyScores sc"
  shows "store_component df scores prefs col criterion name g st =
     (case add_component f prefs col criterion name g sc of
        Inl e \<Rightarrow> (Inl e, st)
      | Inr sc' \<Rightarrow> (Inr (), st[scores := PyScores sc']))"
proof (cases "col \<in> set (columns f) \<and> 0 < weight prefs criterion")
  case True
  then show ?thesis
    using assms
    by (cases "numeric_column f col")
       (simp_all add: store_component_def add_component_def ebind_def assign_def)
next
  case False
  have "st[scores := PyScores sc] = st"
    using assms(2) by (metis list_update_id)
  then show ?thesis
    using False assms by (auto simp: store_component_def add_component_def)
qed

lemma then_store_component:
  assumes "st ! df = PyFrame f" and "st ! scores = PyScores sc"
  shows "then_store (store_component df scores prefs col criterion name g st) k =
     (case add_component f prefs col criterion name g sc of
        Inl e \<Rightarrow> (Inl e, st)
      | Inr sc' \<Rightarrow> k (st[scores := PyScores sc']))"
  by (simp add: store_component_eq[OF assms] then_store_def split: sum.splits)

lemma store_components_eq:
  assumes "scores < length st" and "df \<noteq> scores"
    and "st ! df = PyFrame f" and "st ! scores = PyScores []"
  shows "\<exists>sc'. snd (store_components df scores prefs st) = st[scores := PyScores sc']
    \<and> (case component_scores f prefs of
          Inl e \<Rightarrow> fst (store_components df scores prefs st) = Inl e
        | Inr sc \<Rightarrow> fst (store_components df scores prefs st) = Inr () \<and> sc' = sc)"
proof -
  have keep: "(st[scores := PyScores x]) ! df = PyFrame f"
    "(st[scores := PyScores x]) ! scores = PyScores x" for x
    using assms by simp_all
  have same: "st = st[scores := PyScores []]"
    using assms(4) by (metis list_update_id)
  show ?thesis
  proof (cases "add_component f prefs ''price'' ''price'' ''price_score'' price_score []")
    case (Inl e)
    then show ?thesis
      using same
      by (auto simp: store_components_def component_scores_def ebind_def then_store_def
          store_component_eq[OF assms(3,4)])
  next
    case s1: (Inr s1)
    show ?thesis
    proof (cases "add_component f prefs ''distance_to_downtown'' ''location''
        ''location_score'' location_score s1")
      case (Inl e)
      then show ?thesis
        using s1
        by (auto simp: store_components_def component_scores_def ebind_def then_store_def
            store_component_eq[OF assms(3,4)] store_component_eq[OF keep])
    next
      case s2: (Inr s2)
      show ?thesis
      proof (cases "add_component f prefs ''sqft'' ''size'' ''size_score'' size_score s2")
        case (Inl e)
        then show ?thesis
          using s1 s2
          by (auto simp: store_components_def component_scores_def ebind_def then_store_def
            store_component_eq[OF assms(3,4)] store_component_eq[OF keep])
      next
        case s3: (Inr s3)
        show ?thesis
        proof (cases "add_component f prefs ''beds'' ''bedrooms'' ''bedroom_score''
            (bedroom_score prefs) s3")
          case (Inl e)
          then show ?thesis
            using s1 s2 s3
            by (auto simp: store_components_def component_scores_def ebind_def then_store_def
            store_component_eq[OF assms(3,4)] store_component_eq[OF keep])
        next
          case s4: (Inr s4)
          show ?thesis
            using s1 s2 s3 s4
            by (cases "add_component f prefs ''year_built'' ''age'' ''age_score'' age_score s4")
               (auto simp: store_components_def component_scores_def ebind_def then_store_def
                store_component_eq[OF assms(3,4)] store_component_eq[OF keep])
        qed
      qed
    qed
  qed
qed

lemma store_loop_eq:
  assumes "final < length st" and "st ! final = PyArray acc"
  shows "fold (\<lambda>component s.
             assign final (PyArray (add_weighted prefs component (the_array (s ! final)))) s)
           sc st
    = st[final := PyArray (fold (add_weighted prefs) sc acc)]"
  using assms
proof (induction sc arbitrary: st acc)
  case Nil
  then show ?case by (metis fold_simps(1) list_update_id)
next
  case (Cons c sc)
  let ?st = "assign final (PyArray (add_weighted prefs c (the_array (st ! final)))) st"
  have "final < length ?st" and "?st ! final = PyArray (add_weighted prefs c acc)"
    using Cons.prems by (simp_all add: assign_def)
  from Cons.IH[OF this] show ?case
    using Cons.prems by (simp add: assign_def)
qed

text \<open>
  The call on the store returns what \<open>score_listings\<close> returns, and leaves every object
  that was in the store as it was.
\<close>

lemma score_listings_store_eq:
  assumes "listings_at st ref = Some ls"
  shows "fst (score_listings_store ref prefs st) = score_listings ls prefs
    \<and> take (length st) (snd (score_listings_store ref prefs st)) = st"
proof (cases "ls = []")
  case True
  then show ?thesis
    using assms by (simp add: score_listings_store_def score_listings_def)
next
  case ne: False
  show ?thesis
  proof (cases "hard_filter (DataFrame ls) prefs")
    case (Inl e)
    then show ?thesis
      using assms ne
      by (simp add: score_listings_store_def score_listings_def new_object_def ebind_def)
  next
    case (Inr df)
    show ?thesis
    proof (cases "empty_frame df")
      case True
      then show ?thesis
        using assms ne Inr
        by (simp add: score_listings_store_def score_listings_def new_object_def ebind_def
            nth_append)
    next
      case False
      define st3 where "st3 = st @ [PyFrame (DataFrame ls), PyFrame df, PyScores []]"
      let ?df = "Suc (length st)" and ?scores = "Suc (Suc (length st))"
      have inv: "?scores < length st3" "?df \<noteq> ?scores" "st3 ! ?df = PyFrame df"
        "st3 ! ?scores = PyScores []"
        by (simp_all add: st3_def nth_append)
      from store_components_eq[OF inv, of prefs] obtain sc' where
        snd: "snd (store_components ?df ?scores prefs st3) = st3[?scores := PyScores sc']" and
        fst: "case component_scores df prefs of
            Inl e \<Rightarrow> fst (store_components ?df ?scores prefs st3) = Inl e
          | Inr sc \<Rightarrow> fst (store_components ?df ?scores prefs st3) = Inr () \<and> sc' = sc"
        by blast
      have unfold: "score_listings_store ref prefs st
          = then_store (store_components ?df ?scores prefs st3) (\<lambda>st4.
              let (final, st5) =
                    new_object (PyArray (replicate (length (rows (the_frame (st4 ! ?df)))) 0)) st4;
                  st6 = store_loop final ?scores prefs st5;
                  score = map round2 (the_array (st6 ! final));
                  st7 = assign ?df
                          (PyFrame (set_column (the_frame (st6 ! ?df)) ''score''
                             (map Num score))) st6;
                  st8 = assign ?df
                          (PyFrame (set_column (the_frame (st7 ! ?df)) ''rank''
                             (map (\<lambda>s. Num (of_nat (dense_rank score s))) score))) st7;
                  (sorted, st9) =
                    new_object (PyFrame (sort_values_desc (the_frame (st8 ! ?df)) ''score'')) st8
              in (Inr (to_dict (the_frame (st9 ! sorted))), st9))"
        using assms ne Inr False
        by (simp add: score_listings_store_def new_object_def nth_append st3_def)
      show ?thesis
      proof (cases "component_scores df prefs")
        case (Inl e)
        then show ?thesis
          using fst snd ne Inr False
          by (simp add: unfold then_store_def score_listings_def ebind_def st3_def)
      next
        case sc: (Inr sc)
        then have f: "fst (store_components ?df ?scores prefs st3) = Inr ()" and "sc' = sc"
          using fst by simp_all
        define st4 where "st4 = st3[?scores := PyScores sc]"
        have s4: "snd (store_components ?df ?scores prefs st3) = st4"
          using snd \<open>sc' = sc\<close> by (simp add: st4_def)
        define n where "n = length (rows df)"
        define st5 where "st5 = st4 @ [PyArray (replicate n 0)]"
        let ?final = "Suc (Suc (Suc (length st)))"
        have l4: "length st4 = ?final"
          by (simp add: st4_def st3_def)
        have r4: "st4 ! ?df = PyFrame df" "st4 ! ?scores = PyScores sc"
          by (simp_all add: st4_def st3_def nth_append)
        have r5: "st5 ! ?df = PyFrame df" "st5 ! ?scores = PyScores sc"
          "st5 ! ?final = PyArray (replicate n 0)" "?final < length st5"
          using r4 l4 by (simp_all add: st5_def nth_append)
        define totals where "totals = final_scores prefs sc n"
        have loop: "store_loop ?final ?scores prefs st5 = st5[?final := PyArray totals]"
          unfolding store_loop_def r5(2) the_scores.simps
          using store_loop_eq[OF r5(4) r5(3)] by (simp add: totals_def final_scores_def)
        have "score_listings_store ref prefs st
            = (Inr (to_dict (rank_and_sort df totals)),
               st5[?final := PyArray totals,
                   ?df := PyFrame (set_column (set_column df ''score'' (map Num (map round2 totals)))
                            ''rank''
                            (map (\<lambda>s. Num (of_nat (dense_rank (map round2 totals) s)))
                               (map round2 totals)))]
                 @ [PyFrame (rank_and_sort df totals)])"
          using r4 r5 l4
          by (simp add: unfold then_store_def f s4 new_object_def loop assign_def Let_def
              nth_append rank_and_sort_def n_def[symmetric] st5_def[symmetric])
        then show ?thesis
          using ne Inr False sc
          by (simp add: score_listings_def ebind_def totals_def n_def st5_def st4_def st3_def)
      qed
    qed
  qed
qed

lemma score_listings_store_invalid:
  assumes "listings_at st ref = None"
  shows "score_listings_store ref prefs st = (Inl TypeError, st)"
  using assms by (simp add: score_listings_store_def)

lemma listings_at_extend:
  assumes "listings_at st ref = Some ls" and "take (length st) st' = st"
  shows "listings_at st' ref = Some ls"
proof -
  have "length (take (length st) st') = length st"
    using assms(2) by simp
  then have len: "length st \<le> length st'"
    by simp
  have same: "st' ! i = st ! i" if "i < length st" for i
    using assms(2) that by (metis nth_take)
  from assms(1) obtain refs where
    r: "ref < length st" "st ! ref = PyList refs"
      "list_all (\<lambda>r. r < length st \<and> is_dict (st ! r)) refs"
      "ls = map (\<lambda>r. the_dict (st ! r)) refs"
    by (auto simp: listings_at_def split: if_splits pyobj.splits)
  have "list_all (\<lambda>r. r < length st' \<and> is_dict (st' ! r)) refs"
    using r(3) len same by (auto simp: list_all_iff)
  moreover have "map (\<lambda>r. the_dict (st' ! r)) refs = ls"
    using r(3,4) same by (auto simp: list_all_iff)
  ultimately show ?thesis
    using r(1,2) len same by (simp add: listings_at_def)
qed

subsection \<open>The concrete inputs, evaluated\<close>

lemma tie_run: "score_listings tie_listings price_only = Inr tie_out"
  by code_simp

lemma tie_out_ranks:
  "map rank_of tie_out = [1, 1, 2]" "map score_of tie_out = [100, 100, 0]"
  by (simp_all add: tie_out_def rank_of_def score_of_def cell_at_def)

lemma beds_run: "score_listings beds_listings bedrooms_only = Inr beds_out"
  by code_simp

lemma size_run: "score_listings size_listings size_only = Inr size_out"
  by code_simp

lemma size_frame: "hard_filter (DataFrame size_listings) size_only = Inr (DataFrame size_listings)"
  by code_simp

lemma same_size_components:
  "hard_filter (DataFrame same_size_listings) size_only = Inr (DataFrame same_size_listings)"
  "component_scores (DataFrame same_size_listings) size_only
     = Inr [(''size_score'', [Some 0, Some 0, Some 0])]"
  by code_simp+


lemma size_store_listings: "listings_at size_store 3 = Some size_listings"
  by code_simp

lemma none_store_listings: "listings_at none_store 2 = Some none_listings"
  by code_simp

lemma none_run: "score_listings none_listings no_preferences = Inr none_out"
  by code_simp

section \<open>The claims\<close>

text \<open>
  C1. Every record of the output comes from an input listing of its own (the positions
  \<open>idx\<close> are distinct) whose price, beds and baths are numbers, carries the same
  numbers, and meets the three bounds: price at most \<^verbatim>\<open>max_price\<close> (no bound when
  absent), beds and baths at least \<^verbatim>\<open>min_beds\<close> and \<^verbatim>\<open>min_baths\<close> (0 when
  absent). So a listing whose price, beds or baths is missing is the source of no record.
\<close>

theorem hard_constraints_hold:
  assumes "score_listings listings prefs = Inr out"
  shows "\<exists>idx. length idx = length out \<and> distinct idx \<and>
    (\<forall>k < length out. idx ! k < length listings \<and>
       (\<exists>p b t. cell_at (listings ! (idx ! k)) ''price'' = Num p
          \<and> cell_at (listings ! (idx ! k)) ''beds'' = Num b
          \<and> cell_at (listings ! (idx ! k)) ''baths'' = Num t
          \<and> map_of (out ! k) ''price'' = Some (Num p)
          \<and> map_of (out ! k) ''beds'' = Some (Num b)
          \<and> map_of (out ! k) ''baths'' = Some (Num t)
          \<and> (case max_price prefs of None \<Rightarrow> True | Some m \<Rightarrow> p \<le> m)
          \<and> (case min_beds prefs of None \<Rightarrow> 0 | Some m \<Rightarrow> m) \<le> b
          \<and> (case min_baths prefs of None \<Rightarrow> 0 | Some m \<Rightarrow> m) \<le> t))"
proof -
  from score_listings_source[OF assms] obtain idx where
    len: "length idx = length out" and dist: "distinct idx" and
    src: "\<And>k. k < length out \<Longrightarrow> idx ! k < length listings
       \<and> {''price'', ''beds'', ''baths''} \<subseteq> set (all_keys listings)
       \<and> passes prefs (as_row listings (listings ! (idx ! k)))
       \<and> (\<exists>s n. out ! k = AList.update ''rank'' (Num n)
             (AList.update ''score'' (Num s) (as_row listings (listings ! (idx ! k)))))"
    by blast
  have "idx ! k < length listings \<and>
       (\<exists>p b t. cell_at (listings ! (idx ! k)) ''price'' = Num p
          \<and> cell_at (listings ! (idx ! k)) ''beds'' = Num b
          \<and> cell_at (listings ! (idx ! k)) ''baths'' = Num t
          \<and> map_of (out ! k) ''price'' = Some (Num p)
          \<and> map_of (out ! k) ''beds'' = Some (Num b)
          \<and> map_of (out ! k) ''baths'' = Some (Num t)
          \<and> (case max_price prefs of None \<Rightarrow> True | Some m \<Rightarrow> p \<le> m)
          \<and> (case min_beds prefs of None \<Rightarrow> 0 | Some m \<Rightarrow> m) \<le> b
          \<and> (case min_baths prefs of None \<Rightarrow> 0 | Some m \<Rightarrow> m) \<le> t)"
    if k: "k < length out" for k
  proof -
    define l where "l = listings ! (idx ! k)"
    from src[OF k] obtain s n where
      i: "idx ! k < length listings" and
      keys: "''price'' \<in> set (all_keys listings)" "''beds'' \<in> set (all_keys listings)"
        "''baths'' \<in> set (all_keys listings)" and
      p: "passes prefs (as_row listings l)" and
      r: "out ! k = AList.update ''rank'' (Num n)
             (AList.update ''score'' (Num s) (as_row listings l))"
      unfolding l_def by auto
    from p obtain pr b t where
      v: "cell_at l ''price'' = Num pr" "cell_at l ''beds'' = Num b" "cell_at l ''baths'' = Num t"
        "(case max_price prefs of None \<Rightarrow> True | Some m \<Rightarrow> pr \<le> m)"
        "(case min_beds prefs of None \<Rightarrow> 0 | Some m \<Rightarrow> m) \<le> b"
        "(case min_baths prefs of None \<Rightarrow> 0 | Some m \<Rightarrow> m) \<le> t"
      unfolding passes_iff using keys by (auto simp: cell_at_as_row to_float_frame_cell is_text_frame_cell frame_cell_number)
    have "map_of (out ! k) ''price'' = Some (Num pr)" "map_of (out ! k) ''beds'' = Some (Num b)"
      "map_of (out ! k) ''baths'' = Some (Num t)"
      using keys v(1-3) by (simp_all add: r update_conv' map_of_as_row frame_cell_number)
    with i v show ?thesis
      unfolding l_def by blast
  qed
  with len dist show ?thesis
    by blast
qed

theorem hard_constraints_hold_witness:
  "score_listings tie_listings price_only = Inr tie_out
   \<and> (\<exists>idx. length idx = length tie_out \<and> distinct idx \<and>
    (\<forall>k < length tie_out. idx ! k < length tie_listings \<and>
       (\<exists>p b t. cell_at (tie_listings ! (idx ! k)) ''price'' = Num p
          \<and> cell_at (tie_listings ! (idx ! k)) ''beds'' = Num b
          \<and> cell_at (tie_listings ! (idx ! k)) ''baths'' = Num t
          \<and> map_of (tie_out ! k) ''price'' = Some (Num p)
          \<and> map_of (tie_out ! k) ''beds'' = Some (Num b)
          \<and> map_of (tie_out ! k) ''baths'' = Some (Num t)
          \<and> (case max_price price_only of None \<Rightarrow> True | Some m \<Rightarrow> p \<le> m)
          \<and> (case min_beds price_only of None \<Rightarrow> 0 | Some m \<Rightarrow> m) \<le> b
          \<and> (case min_baths price_only of None \<Rightarrow> 0 | Some m \<Rightarrow> m) \<le> t)))"
  using tie_run hard_constraints_hold[OF tie_run] by (rule conjI)

text \<open>
  C2. The claim: no well-formed input makes \<^verbatim>\<open>score_listings\<close> raise, also when no
  listing carries \<^verbatim>\<open>price\<close>. The code: line 47 reads \<^verbatim>\<open>df["price"]\<close> before the
  guard \<^verbatim>\<open>"price" in df.columns\<close> of line 60, and raises KeyError.
\<close>

theorem missing_price_column_raises:
  "score_listings no_price no_preferences = Inl (KeyError ''price'')"
  by code_simp

text \<open>
  C3. In every output, each record carries its score and a rank of at least 1; records
  with equal score have equal rank; for every record of rank r > 1 some record has rank
  r - 1 and a strictly greater score (no rank is skipped); the next lower score after a
  record's score has that record's rank plus 1; and a record has rank 1 exactly when no
  record has a greater score.
\<close>

theorem dense_rank_law:
  assumes "score_listings listings prefs = Inr out"
  shows "(\<forall>r \<in> set out. map_of r ''score'' = Some (Num (score_of r))
            \<and> map_of r ''rank'' = Some (Num (of_nat (rank_of r))) \<and> 1 \<le> rank_of r)
    \<and> (\<forall>r \<in> set out. \<forall>r' \<in> set out. score_of r = score_of r' \<longrightarrow> rank_of r = rank_of r')
    \<and> (\<forall>r \<in> set out. 1 < rank_of r \<longrightarrow>
          (\<exists>r' \<in> set out. rank_of r' = rank_of r - 1 \<and> score_of r < score_of r'))
    \<and> (\<forall>r \<in> set out. \<forall>r' \<in> set out.
          score_of r' < score_of r
          \<and> (\<forall>r'' \<in> set out. \<not> (score_of r' < score_of r'' \<and> score_of r'' < score_of r))
          \<longrightarrow> rank_of r' = rank_of r + 1)
    \<and> (\<forall>r \<in> set out. rank_of r = 1 \<longleftrightarrow> (\<forall>r' \<in> set out. score_of r' \<le> score_of r))"
proof -
  from scored_facts[OF assms] obtain S where
    S: "set S = score_of ` set out" and
    fields: "\<And>r. r \<in> set out \<Longrightarrow> map_of r ''score'' = Some (Num (score_of r))
          \<and> map_of r ''rank'' = Some (Num (of_nat (rank_of r)))" and
    rank: "\<And>r. r \<in> set out \<Longrightarrow> rank_of r = dense_rank S (score_of r)"
    by blast
  have a: "map_of r ''score'' = Some (Num (score_of r))
            \<and> map_of r ''rank'' = Some (Num (of_nat (rank_of r))) \<and> 1 \<le> rank_of r"
    if "r \<in> set out" for r
    using fields[OF that] rank[OF that] by (simp add: dense_rank_def)
  have b: "rank_of r = rank_of r'"
    if "r \<in> set out" "r' \<in> set out" "score_of r = score_of r'" for r r'
    using that rank by simp
  have c: "\<exists>r' \<in> set out. rank_of r' = rank_of r - 1 \<and> score_of r < score_of r'"
    if r: "r \<in> set out" and gt: "1 < rank_of r" for r
  proof -
    have "1 < dense_rank S (score_of r)"
      using gt rank[OF r] by simp
    from dense_rank_pred[OF this] obtain t where
      t: "t \<in> set S" "score_of r < t" "dense_rank S t = dense_rank S (score_of r) - 1"
      by blast
    from t(1) S obtain r' where r': "r' \<in> set out" "t = score_of r'"
      by auto
    then show ?thesis
      using t(2,3) rank[OF r] rank[OF r'(1)] by auto
  qed
  have d: "rank_of r = 1 \<longleftrightarrow> (\<forall>r' \<in> set out. score_of r' \<le> score_of r)"
    if r: "r \<in> set out" for r
    using rank[OF r] S dense_rank_one[of S "score_of r"] by auto
  have e: "rank_of r' = rank_of r + 1"
    if r: "r \<in> set out" and r': "r' \<in> set out" and lt: "score_of r' < score_of r"
      and gap: "\<forall>r'' \<in> set out. \<not> (score_of r' < score_of r'' \<and> score_of r'' < score_of r)"
    for r r'
  proof -
    have "score_of r \<in> set S"
      using r S by simp
    moreover have "\<forall>t \<in> set S. \<not> (score_of r' < t \<and> t < score_of r)"
      using gap S by auto
    ultimately have "dense_rank S (score_of r') = dense_rank S (score_of r) + 1"
      using lt by (intro dense_rank_next) simp_all
    then show ?thesis
      using rank[OF r] rank[OF r'] by simp
  qed
  have e': "\<forall>r \<in> set out. \<forall>r' \<in> set out.
          score_of r' < score_of r
          \<and> (\<forall>r'' \<in> set out. \<not> (score_of r' < score_of r'' \<and> score_of r'' < score_of r))
          \<longrightarrow> rank_of r' = rank_of r + 1"
    using e by blast
  have abcd: "(\<forall>r \<in> set out. map_of r ''score'' = Some (Num (score_of r))
            \<and> map_of r ''rank'' = Some (Num (of_nat (rank_of r))) \<and> 1 \<le> rank_of r)"
    "(\<forall>r \<in> set out. \<forall>r' \<in> set out. score_of r = score_of r' \<longrightarrow> rank_of r = rank_of r')"
    "(\<forall>r \<in> set out. 1 < rank_of r \<longrightarrow>
          (\<exists>r' \<in> set out. rank_of r' = rank_of r - 1 \<and> score_of r < score_of r'))"
    "(\<forall>r \<in> set out. rank_of r = 1 \<longleftrightarrow> (\<forall>r' \<in> set out. score_of r' \<le> score_of r))"
    using a b c d by blast+
  show ?thesis
    using abcd e' by (intro conjI)
qed

theorem dense_rank_law_witness:
  "score_listings tie_listings price_only = Inr tie_out
   \<and> map rank_of tie_out = [1, 1, 2] \<and> map score_of tie_out = [100, 100, 0]
   \<and> (\<exists>r' \<in> set tie_out. rank_of r' = rank_of (tie_out ! 2) - 1
          \<and> score_of (tie_out ! 2) < score_of r')"
proof -
  have "tie_out ! 2 \<in> set tie_out" and "1 < rank_of (tie_out ! 2)"
    by (simp_all add: tie_out_def rank_of_def cell_at_def)
  with dense_rank_law[OF tie_run]
  have "\<exists>r' \<in> set tie_out. rank_of r' = rank_of (tie_out ! 2) - 1
          \<and> score_of (tie_out ! 2) < score_of r'"
    by blast
  then show ?thesis
    using tie_run tie_out_ranks by simp
qed

text \<open>
  C4. Every output is sorted by descending score and its ranks never decrease: for
  positions i < j, the score at i is at least the score at j and the rank at i is at
  most the rank at j.
\<close>

theorem rank_monotonicity:
  assumes "score_listings listings prefs = Inr out"
  shows "\<forall>i j. i < j \<and> j < length out \<longrightarrow>
           score_of (out ! j) \<le> score_of (out ! i) \<and> rank_of (out ! i) \<le> rank_of (out ! j)"
proof (intro allI impI)
  fix i j
  assume ij: "i < j \<and> j < length out"
  from scored_facts[OF assms] obtain S where
    rank: "\<And>r. r \<in> set out \<Longrightarrow> rank_of r = dense_rank S (score_of r)" and
    sorted: "sorted (map (\<lambda>r. - score_of r) out)"
    by blast
  have "map (\<lambda>r. - score_of r) out ! i \<le> map (\<lambda>r. - score_of r) out ! j"
    using sorted ij by (intro sorted_nth_mono) simp_all
  then have le: "score_of (out ! j) \<le> score_of (out ! i)"
    using ij by simp
  have "rank_of (out ! i) = dense_rank S (score_of (out ! i))"
    "rank_of (out ! j) = dense_rank S (score_of (out ! j))"
    using ij by (simp_all add: rank)
  with le show "score_of (out ! j) \<le> score_of (out ! i) \<and> rank_of (out ! i) \<le> rank_of (out ! j)"
    by (simp add: dense_rank_antimono)
qed

theorem rank_monotonicity_witness:
  "score_listings tie_listings price_only = Inr tie_out
   \<and> (1::nat) < 2 \<and> 2 < length tie_out
   \<and> score_of (tie_out ! 2) \<le> score_of (tie_out ! 1)
   \<and> rank_of (tie_out ! 1) \<le> rank_of (tie_out ! 2)"
proof -
  have "(1::nat) < 2 \<and> 2 < length tie_out"
    by (simp add: tie_out_def)
  with rank_monotonicity[OF tie_run] tie_run show ?thesis
    by blast
qed

text \<open>
  C5, as the code has it. For the location and the size criterion: when the criterion is
  active, its attribute is a column, and the attribute's values over the filtered set do
  not have standard deviation zero, a filtered listing that lacks the attribute (its cell
  is NaN or \<^verbatim>\<open>None\<close>) is kept and counts with the component score 50: its total in the
  accumulator of lines 84 to 88 is the total of the other components plus 50 times the
  criterion's weight, and the output is the filtered rows, each scored from its total.
  For the age criterion there is no fallback to 50: a missing \<^verbatim>\<open>year_built\<close> is
  replaced by 1900 before normalizing.
\<close>

theorem missing_component_fallback:
  assumes "score_listings listings prefs = Inr out" and "out \<noteq> []"
  shows "\<exists>df scores. hard_filter (DataFrame listings) prefs = Inr df
    \<and> component_scores df prefs = Inr scores
    \<and> mset out = mset (map (scored_row df (final_scores prefs scores (length (rows df))))
                          [0 ..< length (rows df)])
    \<and> (\<forall>k < length (rows df).
          (0 < weight prefs ''location'' \<and> ''distance_to_downtown'' \<in> set (columns df)
             \<and> (cell_at (snd (rows df ! k)) ''distance_to_downtown'' = NaN
                  \<or> cell_at (snd (rows df ! k)) ''distance_to_downtown'' = Null)
             \<and> \<not> std_is_zero (column df ''distance_to_downtown'')
           \<longrightarrow> final_scores prefs scores (length (rows df)) ! k
                 = final_scores prefs (AList.delete ''location_score'' scores)
                     (length (rows df)) ! k
                   + 50 * weight prefs ''location'')
        \<and> (0 < weight prefs ''size'' \<and> ''sqft'' \<in> set (columns df)
             \<and> (cell_at (snd (rows df ! k)) ''sqft'' = NaN
                  \<or> cell_at (snd (rows df ! k)) ''sqft'' = Null)
             \<and> \<not> std_is_zero (column df ''sqft'')
           \<longrightarrow> final_scores prefs scores (length (rows df)) ! k
                 = final_scores prefs (AList.delete ''size_score'' scores)
                     (length (rows df)) ! k
                   + 50 * weight prefs ''size''))
    \<and> (0 < weight prefs ''age'' \<and> ''year_built'' \<in> set (columns df)
         \<longrightarrow> map_of scores ''age_score'' =
               Some (inverted (normalize_series
                 (map (\<lambda>v. Some (2024 - (case v of None \<Rightarrow> 1900 | Some y \<Rightarrow> y)))
                    (column df ''year_built'')))))"
proof -
  from score_listings_scored[OF assms] obtain df :: data_frame and sc where
    df: "hard_filter (DataFrame listings) prefs = Inr df" and
    sc: "component_scores df prefs = Inr sc" and
    perm: "mset out = mset (map (scored_row df (final_scores prefs sc (length (rows df))))
                          [0 ..< length (rows df)])"
    by blast
  let ?n = "length (rows df)"
  have dist: "distinct (map fst sc)"
    using sc by (rule component_scores_names(1))
  have sized: "\<forall>c \<in> set sc. length (snd c) = ?n"
    using sc by (rule component_scores_sized)
  have loc: "final_scores prefs sc ?n ! k
      = final_scores prefs (AList.delete ''location_score'' sc) ?n ! k
        + 50 * weight prefs ''location''"
    if "k < ?n" "0 < weight prefs ''location''"
      "''distance_to_downtown'' \<in> set (columns df)"
      "cell_at (snd (rows df ! k)) ''distance_to_downtown'' = NaN
         \<or> cell_at (snd (rows df ! k)) ''distance_to_downtown'' = Null"
      "\<not> std_is_zero (column df ''distance_to_downtown'')" for k
  proof -
    let ?s = "column df ''distance_to_downtown''"
    have "normalize_series ?s ! k = None"
      using that by (intro normalize_nan) (simp_all add: length_column column_null)
    then have nan: "location_score ?s ! k = None"
      using that(1) by (simp add: location_score_def inverted_nan length_normalize length_column)
    have "map_of sc ''location_score'' = Some (location_score ?s)"
      using component_scores_lookup(2)[OF sc] that(2,3) by simp
    from final_scores_delete[OF dist sized this that(1)] nan show ?thesis
      by (simp add: get_or_def weight_key_components)
  qed
  have size: "final_scores prefs sc ?n ! k
      = final_scores prefs (AList.delete ''size_score'' sc) ?n ! k + 50 * weight prefs ''size''"
    if "k < ?n" "0 < weight prefs ''size''" "''sqft'' \<in> set (columns df)"
      "cell_at (snd (rows df ! k)) ''sqft'' = NaN \<or> cell_at (snd (rows df ! k)) ''sqft'' = Null"
      "\<not> std_is_zero (column df ''sqft'')" for k
  proof -
    let ?s = "column df ''sqft''"
    have "normalize_series ?s ! k = None"
      using that by (intro normalize_nan) (simp_all add: length_column column_null)
    then have nan: "size_score ?s ! k = None"
      using that(1) by (simp add: size_score_def scaled_nan length_normalize length_column)
    have "map_of sc ''size_score'' = Some (size_score ?s)"
      using component_scores_lookup(3)[OF sc] that(2,3) by simp
    from final_scores_delete[OF dist sized this that(1)] nan show ?thesis
      by (simp add: get_or_def weight_key_components)
  qed
  have age: "map_of sc ''age_score'' =
               Some (inverted (normalize_series
                 (map (\<lambda>v. Some (2024 - (case v of None \<Rightarrow> 1900 | Some y \<Rightarrow> y)))
                    (column df ''year_built''))))"
    if "0 < weight prefs ''age''" "''year_built'' \<in> set (columns df)"
    using component_scores_lookup(5)[OF sc] that by (simp add: age_score_fillna)
  show ?thesis
    using df sc perm loc size age by blast
qed

theorem missing_component_fallback_witness:
  "score_listings size_listings size_only = Inr size_out \<and> size_out \<noteq> []
   \<and> (\<exists>df scores. hard_filter (DataFrame size_listings) size_only = Inr df
        \<and> component_scores df size_only = Inr scores
        \<and> 2 < length (rows df) \<and> 0 < weight size_only ''size'' \<and> ''sqft'' \<in> set (columns df)
        \<and> cell_at (snd (rows df ! 2)) ''sqft'' = NaN
        \<and> \<not> std_is_zero (column df ''sqft'')
        \<and> final_scores size_only scores (length (rows df)) ! 2
            = final_scores size_only (AList.delete ''size_score'' scores) (length (rows df)) ! 2
              + 50 * weight size_only ''size'')"
proof -
  have ne: "size_out \<noteq> []"
    by (simp add: size_out_def)
  from missing_component_fallback[OF size_run ne] obtain df :: data_frame and scores where
    df: "hard_filter (DataFrame size_listings) size_only = Inr df" and
    sc: "component_scores df size_only = Inr scores" and
    fb: "\<forall>k < length (rows df). 0 < weight size_only ''size'' \<and> ''sqft'' \<in> set (columns df)
             \<and> (cell_at (snd (rows df ! k)) ''sqft'' = NaN
                  \<or> cell_at (snd (rows df ! k)) ''sqft'' = Null)
             \<and> \<not> std_is_zero (column df ''sqft'')
           \<longrightarrow> final_scores size_only scores (length (rows df)) ! k
                 = final_scores size_only (AList.delete ''size_score'' scores)
                     (length (rows df)) ! k
                   + 50 * weight size_only ''size''"
    by blast
  have eq: "df = DataFrame size_listings"
    using df size_frame by simp
  have h: "2 < length (rows (DataFrame size_listings))" "0 < weight size_only ''size''"
    "''sqft'' \<in> set (columns (DataFrame size_listings))"
    "cell_at (snd (rows (DataFrame size_listings) ! 2)) ''sqft'' = NaN"
    "\<not> std_is_zero (column (DataFrame size_listings) ''sqft'')"
    by code_simp+
  then have "final_scores size_only scores (length (rows df)) ! 2
            = final_scores size_only (AList.delete ''size_score'' scores) (length (rows df)) ! 2
              + 50 * weight size_only ''size''"
    using fb unfolding eq by blast
  then show ?thesis
    using size_run ne df sc h unfolding eq by blast
qed

text \<open>
  C5 as stated fails: the listing without \<^verbatim>\<open>year_built\<close> passes the filter, the age
  criterion is active and the other listing has the attribute; the accumulator holds 0
  for it, where a component score of 50 would make it 50, and its score is 0.
\<close>

theorem missing_year_built_counterexample:
  "0 < weight age_only ''age''
   \<and> hard_filter (DataFrame age_listings) age_only = Inr (DataFrame age_listings)
   \<and> cell_at (snd (rows (DataFrame age_listings) ! 0)) ''year_built'' = Num 2000
   \<and> map_of (age_listings ! 1) ''year_built'' = None
   \<and> cell_at (snd (rows (DataFrame age_listings) ! 1)) ''year_built'' = NaN
   \<and> component_scores (DataFrame age_listings) age_only
        = Inr [(''age_score'', [Some 100, Some 0])]
   \<and> final_scores age_only [(''age_score'', [Some 100, Some 0])] 2 = [100, 0]
   \<and> final_scores age_only (AList.delete ''age_score'' [(''age_score'', [Some 100, Some 0])]) 2 ! 1
        + 50 * weight age_only ''age'' = 50
   \<and> score_listings age_listings age_only = Inr age_out"
  by code_simp

text \<open>
  C6. The claim: with one listing in the filtered set the component score is the value
  of the formula at the normalized value 0, which is 100 for the price. The code: the
  standard deviation of one value is NaN, the test of line 100 fails, \<^verbatim>\<open>_normalize\<close>
  returns 0 / 0 = NaN, and the weighted sum uses 50.
\<close>

theorem single_listing_component_is_fallback:
  "hard_filter (DataFrame single_listing) price_weight = Inr (DataFrame single_listing)
   \<and> column (DataFrame single_listing) ''price'' = [Some 400000]
   \<and> var [Some 400000] = None
   \<and> normalize_series [Some 400000] = [None]
   \<and> component_scores (DataFrame single_listing) price_weight = Inr [(''price_score'', [None])]
   \<and> component_used [(''price_score'', [None])] ''price_score'' 0 = Some 50
   \<and> final_scores price_weight [(''price_score'', [None])] 1 = [50]
   \<and> inverted [Some 0] = [Some 100]
   \<and> score_listings single_listing price_weight
        = Inr [[(''id'', Text ''1''), (''price'', Num 400000), (''beds'', Num 3),
                (''baths'', Num 2), (''score'', Num 50), (''rank'', Num 1)]]"
  by code_simp

text \<open>
  C7, as the code has it. When the bedrooms criterion is active, every filtered listing
  has a number of beds, and the bedroom component scores are 100 * (1 - n) for n the
  normalization, across the filtered set, of |beds - target|, where the target is
  \<^verbatim>\<open>min_beds\<close>, and 3 (not 0) when the preferences have no \<^verbatim>\<open>min_beds\<close>.
\<close>

theorem bedroom_score_formula:
  assumes "score_listings listings prefs = Inr out" and "out \<noteq> []"
    and "0 < weight prefs ''bedrooms''"
  shows "\<exists>df scores beds. hard_filter (DataFrame listings) prefs = Inr df
    \<and> component_scores df prefs = Inr scores
    \<and> map (\<lambda>r. cell_at (snd r) ''beds'') (rows df) = map Num beds
    \<and> map_of scores ''bedroom_score'' =
        Some (map (map_option (\<lambda>n. 100 * (1 - n)))
          (normalize_series
            (map (\<lambda>b. Some \<bar>b - (case min_beds prefs of None \<Rightarrow> 3 | Some m \<Rightarrow> m)\<bar>) beds)))"
proof -
  from score_listings_frames[OF assms(1,2)] obtain df :: data_frame and sc where
    df: "hard_filter (DataFrame listings) prefs = Inr df" and
    sc: "component_scores df prefs = Inr sc"
    by blast
  have "\<forall>r \<in> set (rows df). \<exists>b. cell_at (snd r) ''beds'' = Num b"
    using hard_filter_Inr(2)[OF df] by (auto dest: passes_beds)
  from column_all_numbers[OF this] obtain beds where
    beds: "map (\<lambda>r. cell_at (snd r) ''beds'') (rows df) = map Num beds"
      "column df ''beds'' = map Some beds"
    by blast
  have "''beds'' \<in> set (columns df)"
    using hard_filter_Inr(1,4)[OF df] by simp
  then have "map_of sc ''bedroom_score'' = Some (bedroom_score prefs (map Some beds))"
    using component_scores_lookup(4)[OF sc] assms(3) beds(2) by simp
  then show ?thesis
    using df sc beds(1) unfolding bedroom_score_numbers by blast
qed

theorem bedroom_score_formula_witness:
  "score_listings beds_listings bedrooms_only = Inr beds_out \<and> beds_out \<noteq> []
   \<and> 0 < weight bedrooms_only ''bedrooms''
   \<and> (\<exists>df scores beds. hard_filter (DataFrame beds_listings) bedrooms_only = Inr df
    \<and> component_scores df bedrooms_only = Inr scores
    \<and> map (\<lambda>r. cell_at (snd r) ''beds'') (rows df) = map Num beds
    \<and> map_of scores ''bedroom_score'' =
        Some (map (map_option (\<lambda>n. 100 * (1 - n)))
          (normalize_series
            (map (\<lambda>b. Some \<bar>b - (case min_beds bedrooms_only of None \<Rightarrow> 3 | Some m \<Rightarrow> m)\<bar>)
               beds))))"
proof -
  have ne: "beds_out \<noteq> []"
    by (simp add: beds_out_def)
  have w: "0 < weight bedrooms_only ''bedrooms''"
    by (simp add: weight_def bedrooms_only_def get_or_def)
  show ?thesis
    using beds_run ne w bedroom_score_formula[OF beds_run ne w] by blast
qed

text \<open>
  C7 as stated fails: without \<^verbatim>\<open>min_beds\<close> the claim's target 0 gives the scores
  100 and 0 to listings with 1 and 4 bedrooms; the code, with target 3, gives 0 and 100.
\<close>

theorem bedroom_target_default_counterexample:
  "min_beds bedrooms_only = None \<and> 0 < weight bedrooms_only ''bedrooms''
   \<and> hard_filter (DataFrame beds_listings) bedrooms_only = Inr (DataFrame beds_listings)
   \<and> map (\<lambda>r. cell_at (snd r) ''beds'') (rows (DataFrame beds_listings)) = [Num 1, Num 4]
   \<and> component_scores (DataFrame beds_listings) bedrooms_only
        = Inr [(''bedroom_score'', [Some 0, Some 100])]
   \<and> map (map_option (\<lambda>n. 100 * (1 - n))) (normalize_series (map (\<lambda>b. Some \<bar>b - 0\<bar>) [1, 4]))
        = [Some 100, Some 0]"
  by code_simp

text \<open>
  C8. The claim: when no listing passes the hard filter, the result is the empty list
  and nothing is raised. The code: with a negative \<^verbatim>\<open>max_price\<close> and listings without
  a \<^verbatim>\<open>price\<close> key no listing passes, and line 47 raises KeyError.
\<close>

theorem nothing_passes_without_price_raises:
  "score_listings no_price_two negative_max_price = Inl (KeyError ''price'')
   \<and> list_all (\<lambda>l. \<not> passes negative_max_price l) no_price_two"
  by code_simp

text \<open>
  C9, as the code has it. The call writes to no object that was in the store: after it
  the argument denotes the same list of the same dicts. Every output record comes from an
  input listing of its own and is a dict over the keys of all the input listings
  together, and then \<^verbatim>\<open>score\<close> and \<^verbatim>\<open>rank\<close>. A field of the listing other than
  \<^verbatim>\<open>score\<close> and \<^verbatim>\<open>rank\<close> whose value is not \<^verbatim>\<open>None\<close> is there with its value; a
  \<^verbatim>\<open>None\<close> is there as \<^verbatim>\<open>None\<close> or as NaN, and as NaN when the field is a number or
  NaN in some listing and a string in none; a key that only other listings have is there
  with NaN.
\<close>

theorem fields_carried_through:
  assumes "listings_at st ref = Some listings"
    and "score_listings_store ref prefs st = (Inr out, st')"
  shows "take (length st) st' = st \<and> listings_at st' ref = Some listings
    \<and> (\<exists>idx. length idx = length out \<and> distinct idx \<and>
      (\<forall>k < length out. idx ! k < length listings
         \<and> distinct (map fst (out ! k))
         \<and> fst ` set (out ! k) = (\<Union>l \<in> set listings. fst ` set l) \<union> {''score'', ''rank''}
         \<and> (\<forall>c v. map_of (listings ! (idx ! k)) c = Some v \<and> v \<noteq> Null
                 \<and> c \<noteq> ''score'' \<and> c \<noteq> ''rank''
               \<longrightarrow> map_of (out ! k) c = Some v)
         \<and> (\<forall>c. map_of (listings ! (idx ! k)) c = Some Null
                 \<and> c \<noteq> ''score'' \<and> c \<noteq> ''rank''
               \<longrightarrow> map_of (out ! k) c = Some Null \<or> map_of (out ! k) c = Some NaN)
         \<and> (\<forall>c. map_of (listings ! (idx ! k)) c = Some Null
                 \<and> c \<noteq> ''score'' \<and> c \<noteq> ''rank''
                 \<and> float_column (map (\<lambda>l. cell_at l c) listings)
               \<longrightarrow> map_of (out ! k) c = Some NaN)
         \<and> (\<forall>c. c \<in> fst ` set (out ! k) \<and> c \<notin> fst ` set (listings ! (idx ! k))
                 \<and> c \<noteq> ''score'' \<and> c \<noteq> ''rank''
               \<longrightarrow> map_of (out ! k) c = Some NaN)))"
proof -
  from score_listings_store_eq[OF assms(1), of prefs] assms(2)
  have run: "score_listings listings prefs = Inr out" and kept: "take (length st) st' = st"
    by simp_all
  have arg: "listings_at st' ref = Some listings"
    using assms(1) kept by (rule listings_at_extend)
  from score_listings_source[OF run] obtain idx where
    len: "length idx = length out" and dist: "distinct idx" and
    src: "\<And>k. k < length out \<Longrightarrow> idx ! k < length listings
       \<and> (\<exists>s n. out ! k = AList.update ''rank'' (Num n)
             (AList.update ''score'' (Num s) (as_row listings (listings ! (idx ! k)))))"
    by blast
  have each: "idx ! k < length listings
         \<and> distinct (map fst (out ! k))
         \<and> fst ` set (out ! k) = (\<Union>l \<in> set listings. fst ` set l) \<union> {''score'', ''rank''}
         \<and> (\<forall>c v. map_of (listings ! (idx ! k)) c = Some v \<and> v \<noteq> Null
                 \<and> c \<noteq> ''score'' \<and> c \<noteq> ''rank''
               \<longrightarrow> map_of (out ! k) c = Some v)
         \<and> (\<forall>c. map_of (listings ! (idx ! k)) c = Some Null
                 \<and> c \<noteq> ''score'' \<and> c \<noteq> ''rank''
               \<longrightarrow> map_of (out ! k) c = Some Null \<or> map_of (out ! k) c = Some NaN)
         \<and> (\<forall>c. map_of (listings ! (idx ! k)) c = Some Null
                 \<and> c \<noteq> ''score'' \<and> c \<noteq> ''rank''
                 \<and> float_column (map (\<lambda>l. cell_at l c) listings)
               \<longrightarrow> map_of (out ! k) c = Some NaN)
         \<and> (\<forall>c. c \<in> fst ` set (out ! k) \<and> c \<notin> fst ` set (listings ! (idx ! k))
                 \<and> c \<noteq> ''score'' \<and> c \<noteq> ''rank''
               \<longrightarrow> map_of (out ! k) c = Some NaN)"
    if k: "k < length out" for k
  proof -
    define l where "l = listings ! (idx ! k)"
    define row where "row = as_row listings l"
    from src[OF k] obtain s n where
      i: "idx ! k < length listings" and
      r: "out ! k = AList.update ''rank'' (Num n) (AList.update ''score'' (Num s) row)"
      unfolding l_def row_def by auto
    have lmem: "l \<in> set listings"
      using i by (simp add: l_def)
    have d: "distinct (map fst (out ! k))"
      unfolding r row_def
      by (intro distinct_update) (simp add: keys_as_row distinct_all_keys)
    have "fst ` set row = set (map fst row)"
      by simp
    also have "\<dots> = set (all_keys listings)"
      unfolding row_def by (simp only: keys_as_row)
    finally have "fst ` set row = set (all_keys listings)" .
    then have keys: "fst ` set (out ! k)
        = (\<Union>l \<in> set listings. fst ` set l) \<union> {''score'', ''rank''}"
      unfolding r by (auto simp: dom_update set_all_keys)
    have other: "map_of (out ! k) c = map_of row c" if "c \<noteq> ''score''" "c \<noteq> ''rank''" for c
      using that by (simp add: r update_conv')
    have present: "map_of (out ! k) c = Some (frame_cell listings c v)"
      if "map_of l c = Some v" "c \<noteq> ''score''" "c \<noteq> ''rank''" for c v
    proof -
      have "c \<in> fst ` set l"
        using that(1) map_of_eq_None_iff[of l c] by auto
      then have "c \<in> set (all_keys listings)"
        using lmem by (auto simp: set_all_keys)
      then show ?thesis
        using that by (simp add: other row_def map_of_as_row cell_at_Some)
    qed
    have c1: "\<forall>c v. map_of l c = Some v \<and> v \<noteq> Null \<and> c \<noteq> ''score'' \<and> c \<noteq> ''rank''
               \<longrightarrow> map_of (out ! k) c = Some v"
      using present by (simp add: frame_cell_cases)
    have c2: "\<forall>c. map_of l c = Some Null \<and> c \<noteq> ''score'' \<and> c \<noteq> ''rank''
               \<longrightarrow> map_of (out ! k) c = Some Null \<or> map_of (out ! k) c = Some NaN"
      using present by (simp add: frame_cell_cases)
    have c3: "\<forall>c. map_of l c = Some Null \<and> c \<noteq> ''score'' \<and> c \<noteq> ''rank''
                 \<and> float_column (map (\<lambda>l. cell_at l c) listings)
               \<longrightarrow> map_of (out ! k) c = Some NaN"
      using present by (simp add: frame_cell_cases)
    have filled: "map_of (out ! k) c = Some NaN"
      if "c \<in> fst ` set (out ! k)" "c \<notin> fst ` set l" "c \<noteq> ''score''" "c \<noteq> ''rank''" for c
    proof -
      have "c \<in> set (all_keys listings)"
        using that(1,3,4) keys by (auto simp: set_all_keys)
      then show ?thesis
        using that by (simp add: other row_def map_of_as_row cell_at_None frame_cell_cases)
    qed
    have c4: "\<forall>c. c \<in> fst ` set (out ! k) \<and> c \<notin> fst ` set l
               \<and> c \<noteq> ''score'' \<and> c \<noteq> ''rank''
             \<longrightarrow> map_of (out ! k) c = Some NaN"
      using filled by blast
    show ?thesis
      using i d keys c1 c2 c3 c4 unfolding l_def by (intro conjI)
  qed
  have "\<exists>idx. length idx = length out \<and> distinct idx \<and>
      (\<forall>k < length out. idx ! k < length listings
         \<and> distinct (map fst (out ! k))
         \<and> fst ` set (out ! k) = (\<Union>l \<in> set listings. fst ` set l) \<union> {''score'', ''rank''}
         \<and> (\<forall>c v. map_of (listings ! (idx ! k)) c = Some v \<and> v \<noteq> Null
                 \<and> c \<noteq> ''score'' \<and> c \<noteq> ''rank''
               \<longrightarrow> map_of (out ! k) c = Some v)
         \<and> (\<forall>c. map_of (listings ! (idx ! k)) c = Some Null
                 \<and> c \<noteq> ''score'' \<and> c \<noteq> ''rank''
               \<longrightarrow> map_of (out ! k) c = Some Null \<or> map_of (out ! k) c = Some NaN)
         \<and> (\<forall>c. map_of (listings ! (idx ! k)) c = Some Null
                 \<and> c \<noteq> ''score'' \<and> c \<noteq> ''rank''
                 \<and> float_column (map (\<lambda>l. cell_at l c) listings)
               \<longrightarrow> map_of (out ! k) c = Some NaN)
         \<and> (\<forall>c. c \<in> fst ` set (out ! k) \<and> c \<notin> fst ` set (listings ! (idx ! k))
                 \<and> c \<noteq> ''score'' \<and> c \<noteq> ''rank''
               \<longrightarrow> map_of (out ! k) c = Some NaN))"
    using len dist each by blast
  with kept arg show ?thesis
    by (intro conjI)
qed

theorem fields_carried_through_witness:
  "listings_at size_store 3 = Some size_listings
   \<and> fst (score_listings_store 3 size_only size_store) = Inr size_out
   \<and> take (length size_store) (snd (score_listings_store 3 size_only size_store)) = size_store
   \<and> listings_at (snd (score_listings_store 3 size_only size_store)) 3 = Some size_listings
   \<and> (\<exists>idx. length idx = length size_out \<and> distinct idx \<and>
      (\<forall>k < length size_out. idx ! k < length size_listings
         \<and> distinct (map fst (size_out ! k))
         \<and> fst ` set (size_out ! k)
             = (\<Union>l \<in> set size_listings. fst ` set l) \<union> {''score'', ''rank''}
         \<and> (\<forall>c v. map_of (size_listings ! (idx ! k)) c = Some v \<and> v \<noteq> Null
                 \<and> c \<noteq> ''score'' \<and> c \<noteq> ''rank''
               \<longrightarrow> map_of (size_out ! k) c = Some v)
         \<and> (\<forall>c. map_of (size_listings ! (idx ! k)) c = Some Null
                 \<and> c \<noteq> ''score'' \<and> c \<noteq> ''rank''
               \<longrightarrow> map_of (size_out ! k) c = Some Null \<or> map_of (size_out ! k) c = Some NaN)
         \<and> (\<forall>c. map_of (size_listings ! (idx ! k)) c = Some Null
                 \<and> c \<noteq> ''score'' \<and> c \<noteq> ''rank''
                 \<and> float_column (map (\<lambda>l. cell_at l c) size_listings)
               \<longrightarrow> map_of (size_out ! k) c = Some NaN)
         \<and> (\<forall>c. c \<in> fst ` set (size_out ! k) \<and> c \<notin> fst ` set (size_listings ! (idx ! k))
                 \<and> c \<noteq> ''score'' \<and> c \<noteq> ''rank''
               \<longrightarrow> map_of (size_out ! k) c = Some NaN)))"
proof -
  have res: "fst (score_listings_store 3 size_only size_store) = Inr size_out"
    using score_listings_store_eq[OF size_store_listings, of size_only] size_run by simp
  then have run: "score_listings_store 3 size_only size_store
      = (Inr size_out, snd (score_listings_store 3 size_only size_store))"
    by (metis prod.collapse)
  show ?thesis
    using size_store_listings res fields_carried_through[OF size_store_listings run]
    by (intro conjI) blast+
qed

text \<open>
  C9 as stated fails. The listing \<^verbatim>\<open>z\<close> has no \<^verbatim>\<open>sqft\<close> field, and its output record
  has one (with NaN), because another listing has the key: the record is not the listing
  augmented only with \<^verbatim>\<open>score\<close> and \<^verbatim>\<open>rank\<close>. The listing \<^verbatim>\<open>q\<close> has
  \<^verbatim>\<open>year_built\<close> \<^verbatim>\<open>None\<close>, and its record has NaN there: the field is changed.
\<close>

theorem extra_field_counterexample:
  "listings_at size_store 3 = Some size_listings
   \<and> fst (score_listings_store 3 size_only size_store) = Inr size_out
   \<and> map_of (size_listings ! 2) ''id'' = Some (Text ''z'')
   \<and> map_of (size_out ! 1) ''id'' = Some (Text ''z'')
   \<and> map_of (size_listings ! 2) ''sqft'' = None
   \<and> map_of (size_out ! 1) ''sqft'' = Some NaN
   \<and> map fst (size_listings ! 2) = [''id'', ''price'', ''beds'', ''baths'']
   \<and> map fst (size_out ! 1) = [''id'', ''price'', ''beds'', ''baths'', ''sqft'', ''score'', ''rank'']
   \<and> listings_at none_store 2 = Some none_listings
   \<and> fst (score_listings_store 2 no_preferences none_store) = Inr none_out
   \<and> map_of (none_listings ! 1) ''year_built'' = Some Null
   \<and> map_of (none_out ! 1) ''year_built'' = Some NaN"
proof -
  have size_result: "fst (score_listings_store 3 size_only size_store) = Inr size_out"
    using score_listings_store_eq[OF size_store_listings, of size_only] size_run by simp
  have none_result: "fst (score_listings_store 2 no_preferences none_store) = Inr none_out"
    using score_listings_store_eq[OF none_store_listings, of no_preferences] none_run by simp
  have fields: "map_of (size_listings ! 2) ''id'' = Some (Text ''z'')
     \<and> map_of (size_out ! 1) ''id'' = Some (Text ''z'')
     \<and> map_of (size_listings ! 2) ''sqft'' = None
     \<and> map_of (size_out ! 1) ''sqft'' = Some NaN
     \<and> map fst (size_listings ! 2) = [''id'', ''price'', ''beds'', ''baths'']
     \<and> map fst (size_out ! 1)
         = [''id'', ''price'', ''beds'', ''baths'', ''sqft'', ''score'', ''rank'']"
    by code_simp
  have none_fields: "map_of (none_listings ! 1) ''year_built'' = Some Null
     \<and> map_of (none_out ! 1) ''year_built'' = Some NaN"
    by code_simp
  show ?thesis
    using size_store_listings size_result fields none_store_listings none_result none_fields
    by blast
qed




end
